theory Spec2Isabelle
  imports Main "HOL-Library.Word"
begin

section \<open>JavaScript values\<close>

text \<open>
  A JavaScript string is a sequence of UTF-16 code units; \<open>length\<close> is its \<open>.length\<close>.
  An ASCII literal of the source is written \<open>js ''...''\<close>.  A value that may be
  \<open>undefined\<close> or \<open>null\<close> is an \<open>option\<close>, with \<open>None\<close> for both.
\<close>

type_synonym jstring = "16 word list"

definition js :: "string \<Rightarrow> jstring" where
  "js s = map (\<lambda>c. of_nat (of_char c)) s"

text \<open>Truthiness of an optional string (\<open>!!v\<close>): defined, not null and not empty.\<close>

definition truthy :: "jstring option \<Rightarrow> bool" where
  "truthy v = (case v of None \<Rightarrow> False | Some s \<Rightarrow> s \<noteq> [])"

text \<open>\<open>v || d\<close> on an optional string \<open>v\<close> and a string \<open>d\<close>.\<close>

definition or_else :: "jstring option \<Rightarrow> jstring \<Rightarrow> jstring" where
  "or_else v d = (case v of None \<Rightarrow> d | Some s \<Rightarrow> if s = [] then d else s)"

definition startsWith :: "jstring \<Rightarrow> jstring \<Rightarrow> bool" where
  "startsWith s p = (take (length p) s = p)"

definition endsWith :: "jstring \<Rightarrow> jstring \<Rightarrow> bool" where
  "endsWith s p = (length p \<le> length s \<and> drop (length s - length p) s = p)"

text \<open>\<open>s.substring(a, b)\<close> for non-negative integers: the smaller bound comes first.\<close>

definition substring :: "jstring \<Rightarrow> nat \<Rightarrow> nat \<Rightarrow> jstring" where
  "substring s a b = take (max a b - min a b) (drop (min a b) s)"

text \<open>\<open>xs.join(sep)\<close> on an array of strings.\<close>

fun join :: "jstring \<Rightarrow> jstring list \<Rightarrow> jstring" where
  "join sep [] = []"
| "join sep [x] = x"
| "join sep (x # y # ys) = x @ sep @ join sep (y # ys)"

text \<open>
  \<open>s.replace(pat, rep)\<close> with a string pattern: the first occurrence only.  The
  replacement strings of this program hold no \<open>$\<close>, so no replacement pattern is
  expanded.
\<close>

fun replace :: "jstring \<Rightarrow> jstring \<Rightarrow> jstring \<Rightarrow> jstring" where
  "replace [] pat rep = (if pat = [] then rep else [])"
| "replace (c # cs) pat rep =
     (if startsWith (c # cs) pat then rep @ drop (length pat) (c # cs)
      else c # replace cs pat rep)"

text \<open>Decimal rendering of an integer (\<open>n.toString()\<close>, and \<open>${n}\<close> in a template).\<close>

fun digits :: "nat \<Rightarrow> jstring" where
  "digits n = (if n < 10 then [of_nat (48 + n)] else digits (n div 10) @ [of_nat (48 + n mod 10)])"

declare digits.simps [simp del]

definition toString :: "int \<Rightarrow> jstring" where
  "toString i = (if i < 0 then js ''-'' @ digits (nat (- i)) else digits (nat i))"

text \<open>
  \<open>Buffer.byteLength(s, 'utf8')\<close>: the length of the UTF-8 encoding.  A code unit
  below \<open>0x80\<close> takes one byte, one below \<open>0x800\<close> two; a high surrogate followed
  by a low surrogate is one code point of four bytes; every other unit (a lone
  surrogate is encoded as U+FFFD) takes three.
\<close>

definition is_high_surrogate :: "16 word \<Rightarrow> bool" where
  "is_high_surrogate c = (0xD800 \<le> c \<and> c \<le> 0xDBFF)"

definition is_low_surrogate :: "16 word \<Rightarrow> bool" where
  "is_low_surrogate c = (0xDC00 \<le> c \<and> c \<le> 0xDFFF)"

fun byteLength :: "jstring \<Rightarrow> nat" where
  "byteLength [] = 0"
| "byteLength [c] = (if c < 0x80 then 1 else if c < 0x800 then 2 else 3)"
| "byteLength (c # d # cs) =
     (if c < 0x80 then 1 + byteLength (d # cs)
      else if c < 0x800 then 2 + byteLength (d # cs)
      else if is_high_surrogate c \<and> is_low_surrogate d then 4 + byteLength cs
      else 3 + byteLength (d # cs))"

subsection \<open>Thrown values\<close>

text \<open>
  What a \<open>catch\<close> receives: an error object with its class name, the \<open>status\<close> an
  HTTP failure of the client carries (\<open>undefined\<close> on every other error) and its
  message.
\<close>

record js_error =
  err_name :: jstring
  err_status :: "int option"
  err_message :: jstring

text \<open>\<open>new Error(msg)\<close>.\<close>

definition new_Error :: "jstring \<Rightarrow> js_error" where
  "new_Error msg = \<lparr>err_name = js ''Error'', err_status = None, err_message = msg\<rparr>"

text \<open>
  The \<open>TypeError\<close> of reading property \<open>p\<close> of \<open>null\<close> or \<open>undefined\<close> (the message
  is the engine's wording for \<open>null\<close>).
\<close>

definition TypeError_reading :: "jstring \<Rightarrow> js_error" where
  "TypeError_reading p =
     \<lparr>err_name = js ''TypeError'', err_status = None,
      err_message = js ''Cannot read properties of null (reading '' @ [0x27] @ p @ [0x27] @ js '')''\<rparr>"

text \<open>\<open>`${e}`\<close> on an error object: \<open>Error.prototype.toString\<close>.\<close>

definition error_toString :: "js_error \<Rightarrow> jstring" where
  "error_toString e =
     (if err_name e = [] then err_message e
      else if err_message e = [] then err_name e
      else err_name e @ js '': '' @ err_message e)"

section \<open>The hosting API and its responses\<close>

text \<open>
  The response of \<open>pulls.get\<close> as far as \<open>getPullRequest\<close> reads it.  The parts
  that may be \<open>null\<close> or missing at run time (the body, the user and the login, a
  branch's repository, and the repository's names and owner) are options.
\<close>

record api_owner =
  api_owner_login :: "jstring option"

record api_repo =
  api_full_name :: "jstring option"
  api_name :: "jstring option"
  api_owner :: "api_owner option"

record api_branch =
  api_ref :: jstring
  api_sha :: jstring
  api_repo :: "api_repo option"

record api_user =
  api_login :: "jstring option"

record api_pull =
  api_number :: int
  api_title :: jstring
  api_body :: "jstring option"
  api_state :: jstring
  api_user :: "api_user option"
  api_head :: api_branch
  api_base :: api_branch

text \<open>One entry of \<open>pulls.listFiles\<close>; \<open>api_patch\<close> stands for what the adapter drops.\<close>

record api_file =
  api_filename :: jstring
  api_status :: jstring
  api_additions :: nat
  api_deletions :: nat
  api_changes :: nat
  api_patch :: "jstring option"

text \<open>
  The client object (\<open>Octokit\<close>) is an external collaborator: each endpoint is a
  function from the request's parameters to the error it throws or the data it
  returns.  \<open>rest_user\<close> is \<open>None\<close> when \<open>rest.user\<close> is missing, \<open>Some None\<close> when
  \<open>getAuthenticated\<close> is missing.  \<open>pulls_get_diff\<close> is \<open>pulls.get\<close> with
  \<open>mediaType: {format: 'diff'}\<close>; \<open>pulls_listFiles\<close> takes owner, repo, pull number,
  \<open>per_page\<close> and \<open>page\<close>.
\<close>

record octokit =
  rest_user :: "(js_error + api_user) option option"
  pulls_get :: "jstring \<Rightarrow> jstring \<Rightarrow> int \<Rightarrow> js_error + api_pull"
  pulls_get_diff :: "jstring \<Rightarrow> jstring \<Rightarrow> int \<Rightarrow> js_error + jstring"
  pulls_listFiles :: "jstring \<Rightarrow> jstring \<Rightarrow> int \<Rightarrow> nat \<Rightarrow> nat \<Rightarrow> js_error + api_file list"

record octokit_config =
  auth :: jstring
  baseUrl :: "jstring option"

subsection \<open>Local types (\<open>types/github\<close>, \<open>types/context\<close>, \<open>types/inputs\<close>)\<close>

record pr_owner =
  pr_owner_login :: "jstring option"

record pr_repo =
  pr_full_name :: "jstring option"
  pr_name :: "jstring option"
  pr_owner :: pr_owner

record pr_branch =
  pr_ref :: jstring
  pr_sha :: jstring
  pr_repo :: pr_repo

record pr_user =
  pr_login :: jstring

record PullRequestInfo =
  pr_number :: int
  pr_title :: jstring
  pr_body :: "jstring option"
  pr_state :: jstring
  pr_user :: pr_user
  pr_head :: pr_branch
  pr_base :: pr_branch

record PullRequestFile =
  filename :: jstring
  status :: jstring
  additions :: nat
  deletions :: nat
  changes :: nat

record PullRequestDiff =
  diff_content :: jstring
  diff_size :: nat
  diff_truncated :: bool

record prd_repo =
  prd_full_name :: "jstring option"
  prd_name :: "jstring option"
  prd_owner :: "jstring option"

record prd_branch =
  prd_ref :: jstring
  prd_sha :: jstring
  prd_repo :: prd_repo

record PRData =
  prd_number :: int
  prd_title :: jstring
  prd_author :: jstring
  prd_head :: prd_branch
  prd_base :: prd_branch
  prd_body :: jstring
  prd_state :: jstring
  prd_changed_files :: jstring
  prd_changed_files_list :: "PullRequestFile list"
  prd_diff_file :: jstring

record ActionInputs =
  in_pullNumber :: "int option"
  in_repoName :: "jstring option"
  in_githubToken :: "jstring option"
  in_githubApiUrl :: "jstring option"

section \<open>Effects\<close>

text \<open>
  Every function of the program returns the events it caused, in order, beside its
  result: the calls of the logger (level, message, and at error level the error that
  is reported, handed over as the object or as its message and status; the metadata
  bundles of the other levels are not recorded) and the requests to the hosting API
  and to the file utilities.  A result is \<open>Inl e\<close> when
  the function throws \<open>e\<close>.
\<close>

datatype level = Debug | Info | Warning | Err

datatype request =
    GetAuthenticated
  | PullsGet jstring jstring int
  | PullsGetDiff jstring jstring int
  | PullsListFiles jstring jstring int nat nat
  | EnsureDirectoryExists jstring
  | WriteFile jstring jstring

datatype event = Log level jstring "js_error option" | Call request

text \<open>
  What the two files import and \<open>src/\<close> does not hold: the constants of
  \<open>config/constants\<close>, \<open>join\<close> of \<open>node:path\<close>, \<open>FileUtils\<close> (\<open>None\<close>: no error),
  \<open>ValidationUtils.parseRepoName\<close> and the constructor of \<open>Octokit\<close>.
\<close>

record env =
  MAX_DIFF_SIZE :: nat
  API_ERROR :: jstring
  TEMP_DIR :: jstring
  DIFF_FILE_PATTERN :: jstring
  path_join :: "jstring \<Rightarrow> jstring \<Rightarrow> jstring"
  ensureDirectoryExists :: "jstring \<Rightarrow> js_error option"
  writeFile :: "jstring \<Rightarrow> jstring \<Rightarrow> js_error option"
  parseRepoName :: "jstring \<Rightarrow> js_error + jstring \<times> jstring"
  new_Octokit :: "octokit_config \<Rightarrow> js_error + octokit"

section \<open>\<open>GitHubService\<close>\<close>

record service_config =
  cfg_token :: jstring
  cfg_owner :: jstring
  cfg_repo :: jstring
  cfg_baseUrl :: "jstring option"

record GitHubService =
  svc_octokit :: octokit
  owner :: jstring
  repo :: jstring

subsection \<open>The constructor\<close>

text \<open>The value of \<open>baseUrl\<close> after the adjustment of a supplied, non-empty base URL.\<close>

definition adjust_baseUrl :: "jstring \<Rightarrow> jstring" where
  "adjust_baseUrl url =
     (if \<not> endsWith url (js ''/api/v3'') then
        (if endsWith url (js ''/'') then url @ js ''api/v3''
         else url @ js ''/api/v3'')
      else url)"

text \<open>\<open>octokitConfig\<close> as handed to \<open>new Octokit\<close>, and the debug lines on the way.\<close>

definition build_octokitConfig :: "service_config \<Rightarrow> event list \<times> octokit_config" where
  "build_octokitConfig config =
     (case cfg_baseUrl config of
        None \<Rightarrow>
          ([Log Debug (js ''Using default GitHub.com API'') None],
           \<lparr>auth = cfg_token config, baseUrl = None\<rparr>)
      | Some b \<Rightarrow>
          if b = [] then
            ([Log Debug (js ''Using default GitHub.com API'') None],
             \<lparr>auth = cfg_token config, baseUrl = None\<rparr>)
          else
            ((if \<not> endsWith b (js ''/api/v3'')
              then [Log Debug (js ''Adjusted GitHub API URL to include /api/v3'') None]
              else [])
             @ [Log Debug (js ''Using custom GitHub API URL'') None],
             \<lparr>auth = cfg_token config, baseUrl = Some (adjust_baseUrl b)\<rparr>))"

definition new_GitHubService :: "env \<Rightarrow> service_config \<Rightarrow> event list \<times> (js_error + GitHubService)" where
  "new_GitHubService E config =
     (let (t1, octokitConfig) = build_octokitConfig config;
          t2 = t1 @ [Log Debug (js ''GitHub token info'') None,
                     Log Debug (js ''Creating Octokit instance with config'') None]
      in case new_Octokit E octokitConfig of
           Inl octokitError \<Rightarrow>
             (let error = new_Error (js ''Failed to initialize GitHub API client: ''
                                      @ error_toString octokitError)
              in (t2 @ [Log Err (js ''Failed to create Octokit instance'') (Some octokitError),
                        Log Err (js ''Failed to initialize GitHubService'') (Some error)],
                  Inl error))
         | Inr client \<Rightarrow>
             (t2 @ [Log Debug (js ''Octokit instance created successfully'') None,
                    Log Debug (js ''GitHubService initialized successfully'') None],
              Inr \<lparr>svc_octokit = client, owner = cfg_owner config, repo = cfg_repo config\<rparr>))"

subsection \<open>\<open>testAuthentication\<close>\<close>



subsection \<open>\<open>getPullRequest\<close>\<close>

text \<open>
  The object literal of the \<open>return\<close>: the properties are read in source order, and
  reading a property of a missing \<open>repo\<close> or \<open>owner\<close> throws.
\<close>

definition build_repo :: "api_repo option \<Rightarrow> js_error + pr_repo" where
  "build_repo r =
     (case r of
        None \<Rightarrow> Inl (TypeError_reading (js ''full_name''))
      | Some rp \<Rightarrow>
          (case api_owner rp of
             None \<Rightarrow> Inl (TypeError_reading (js ''login''))
           | Some ow \<Rightarrow>
               Inr \<lparr>pr_full_name = api_full_name rp, pr_name = api_name rp,
                    pr_owner = \<lparr>pr_owner_login = api_owner_login ow\<rparr>\<rparr>))"

definition build_info :: "api_pull \<Rightarrow> js_error + PullRequestInfo" where
  "build_info data =
     (case build_repo (api_repo (api_head data)) of
        Inl e \<Rightarrow> Inl e
      | Inr head_repo \<Rightarrow>
          (case build_repo (api_repo (api_base data)) of
             Inl e \<Rightarrow> Inl e
           | Inr base_repo \<Rightarrow>
               Inr \<lparr>pr_number = api_number data,
                    pr_title = api_title data,
                    pr_body = api_body data,
                    pr_state = api_state data,
                    pr_user = \<lparr>pr_login =
                      or_else (case api_user data of None \<Rightarrow> None | Some u \<Rightarrow> api_login u)
                        (js ''unknown'')\<rparr>,
                    pr_head = \<lparr>pr_ref = api_ref (api_head data), pr_sha = api_sha (api_head data),
                               pr_repo = head_repo\<rparr>,
                    pr_base = \<lparr>pr_ref = api_ref (api_base data), pr_sha = api_sha (api_base data),
                               pr_repo = base_repo\<rparr>\<rparr>))"

definition getPullRequest_try :: "GitHubService \<Rightarrow> int \<Rightarrow> event list \<times> (js_error + PullRequestInfo)" where
  "getPullRequest_try this pullNumber =
     ([Log Debug (js ''Fetching PR '' @ toString pullNumber @ js '' from '' @ owner this
                   @ js ''/'' @ repo this) None,
       Log Debug (js ''Octokit instance check'') None,
       Call (PullsGet (owner this) (repo this) pullNumber)],
      case pulls_get (svc_octokit this) (owner this) (repo this) pullNumber of
        Inl e \<Rightarrow> Inl e
      | Inr data \<Rightarrow> build_info data)"

definition authentication_guidance :: jstring where
  "authentication_guidance =
     js '' - Authentication failed. This could be due to:'' @ [0x0A]
     @ js ''1. Invalid or expired GitHub token'' @ [0x0A]
     @ js ''2. Token doesn't have required permissions (needs 'repo' scope)'' @ [0x0A]
     @ js ''3. For GitHub Enterprise: Incorrect github_api_url parameter'' @ [0x0A]
     @ js ''4. For GitHub Enterprise: Token might need to be generated from the Enterprise instance''"

definition not_found_guidance :: jstring where
  "not_found_guidance =
     js '' - Repository or PR not found. Check:'' @ [0x0A]
     @ js ''1. Repository name format (should be 'owner/repo')'' @ [0x0A]
     @ js ''2. PR number exists'' @ [0x0A]
     @ js ''3. Token has access to the repository''"

definition getPullRequest :: "env \<Rightarrow> GitHubService \<Rightarrow> int \<Rightarrow> event list \<times> (js_error + PullRequestInfo)" where
  "getPullRequest E this pullNumber =
     (case getPullRequest_try this pullNumber of
        (t, Inr info) \<Rightarrow> (t, Inr info)
      | (t, Inl error) \<Rightarrow>
          (let errorMessage = API_ERROR E @ js '': Failed to fetch PR '' @ toString pullNumber
           in (t @ [if err_status error = Some 401 then
                      Log Err (errorMessage @ authentication_guidance) (Some error)
                    else if err_status error = Some 404 then
                      Log Err (errorMessage @ not_found_guidance) (Some error)
                    else Log Err errorMessage (Some error)],
               Inl error)))"

subsection \<open>\<open>getPullRequestFiles\<close>\<close>

definition perPage :: nat where
  "perPage = 100"

definition to_file :: "api_file \<Rightarrow> PullRequestFile" where
  "to_file file =
     \<lparr>filename = api_filename file, status = api_status file, additions = api_additions file,
      deletions = api_deletions file, changes = api_changes file\<rparr>"

text \<open>
  The \<open>while (true)\<close> loop, from the state \<open>(page, allFiles)\<close> and the events so far.
  It ends at the first page that throws or is shorter than \<open>perPage\<close>, with the
  files and the last value of \<open>page\<close>; while every page is full it runs on, and the
  result is \<open>None\<close>.
\<close>

partial_function (option) listFiles_loop ::
  "GitHubService \<Rightarrow> int \<Rightarrow> nat \<Rightarrow> PullRequestFile list \<Rightarrow> event list
     \<Rightarrow> (event list \<times> (js_error + PullRequestFile list \<times> nat)) option" where
  "listFiles_loop this pullNumber page allFiles t =
     (let t1 = t @ [Log Debug (js ''Fetching PR files page '' @ digits page) None,
                    Call (PullsListFiles (owner this) (repo this) pullNumber perPage page)]
      in case pulls_listFiles (svc_octokit this) (owner this) (repo this) pullNumber perPage page of
           Inl e \<Rightarrow> Some (t1, Inl e)
         | Inr data \<Rightarrow>
             (let pageFiles = map to_file data;
                  allFiles' = allFiles @ pageFiles;
                  t2 = t1 @ [Log Debug (js ''Fetched '' @ digits (length pageFiles)
                                        @ js '' files from page '' @ digits page) None]
              in if length data < perPage then Some (t2, Inr (allFiles', page))
                 else listFiles_loop this pullNumber (page + 1) allFiles' t2))"

definition getPullRequestFiles ::
  "env \<Rightarrow> GitHubService \<Rightarrow> int \<Rightarrow> (event list \<times> (js_error + PullRequestFile list)) option" where
  "getPullRequestFiles E this pullNumber =
     (case listFiles_loop this pullNumber 1 []
             [Log Debug (js ''Fetching files for PR '' @ toString pullNumber) None] of
        None \<Rightarrow> None
      | Some (t, Inl error) \<Rightarrow>
          Some (t @ [Log Err (API_ERROR E @ js '': Failed to fetch PR files'') (Some error)],
                Inl error)
      | Some (t, Inr (allFiles, page)) \<Rightarrow>
          Some (t @ [Log Info (js ''Successfully fetched all PR files'') None], Inr allFiles))"

subsection \<open>\<open>getPullRequestDiff\<close>\<close>

definition getPullRequestDiff ::
  "env \<Rightarrow> GitHubService \<Rightarrow> int \<Rightarrow> event list \<times> (js_error + PullRequestDiff)" where
  "getPullRequestDiff E this pullNumber =
     (let t = [Log Debug (js ''Fetching diff for PR '' @ toString pullNumber) None,
               Call (PullsGetDiff (owner this) (repo this) pullNumber)]
      in case pulls_get_diff (svc_octokit this) (owner this) (repo this) pullNumber of
           Inl error \<Rightarrow>
             (t @ [Log Err (API_ERROR E @ js '': Failed to fetch PR diff'') (Some error)],
              Inl error)
         | Inr content \<Rightarrow>
             (let size = byteLength content;
                  truncated = (size > MAX_DIFF_SIZE E)
              in (t, Inr \<lparr>diff_content =
                            (if truncated then substring content 0 (MAX_DIFF_SIZE E) else content),
                          diff_size = size,
                          diff_truncated = truncated\<rparr>)))"

section \<open>\<open>PRExtractor\<close>\<close>

record PRExtractor =
  githubService :: "GitHubService option"

subsection \<open>\<open>create\<close>\<close>

text \<open>The \<open>try\<close> block, entered with a truthy repository name and token.\<close>

definition create_try ::
  "env \<Rightarrow> jstring \<Rightarrow> jstring \<Rightarrow> jstring option \<Rightarrow> event list \<times> (js_error + PRExtractor)" where
  "create_try E repoName githubToken githubApiUrl =
     (case parseRepoName E repoName of
        Inl e \<Rightarrow> ([], Inl e)
      | Inr repoInfo \<Rightarrow>
          (let t1 = [Log Debug (js ''Creating GitHubService with config'') None];
               (t2, r) = new_GitHubService E
                           \<lparr>cfg_token = githubToken, cfg_owner = fst repoInfo,
                            cfg_repo = snd repoInfo, cfg_baseUrl = githubApiUrl\<rparr>
           in case r of
                Inl e \<Rightarrow> (t1 @ t2, Inl e)
              | Inr service \<Rightarrow>
                  (t1 @ t2 @ [Log Debug (js ''PRExtractor created with pre-configured GitHubService'') None],
                   Inr \<lparr>githubService = Some service\<rparr>)))"

definition create_without_service :: "event list \<times> (js_error + PRExtractor)" where
  "create_without_service =
     ([Log Debug (js ''PRExtractor created without GitHubService (will be created lazily)'') None],
      Inr \<lparr>githubService = None\<rparr>)"

definition create :: "env \<Rightarrow> ActionInputs \<Rightarrow> event list \<times> (js_error + PRExtractor)" where
  "create E inputs =
     (case in_repoName inputs of
        None \<Rightarrow> create_without_service
      | Some repoName \<Rightarrow>
          (case in_githubToken inputs of
             None \<Rightarrow> create_without_service
           | Some githubToken \<Rightarrow>
               if repoName \<noteq> [] \<and> githubToken \<noteq> [] then
                 (case create_try E repoName githubToken (in_githubApiUrl inputs) of
                    (t, Inr extractor) \<Rightarrow> (t, Inr extractor)
                  | (t, Inl error) \<Rightarrow>
                      (t @ [Log Debug (js ''Failed to create pre-configured GitHubService, will create lazily'') None]
                         @ fst create_without_service,
                       snd create_without_service))
               else create_without_service))"

subsection \<open>\<open>shouldExtract\<close>\<close>

definition shouldExtract :: "ActionInputs \<Rightarrow> bool" where
  "shouldExtract inputs =
     ((case in_pullNumber inputs of None \<Rightarrow> False | Some n \<Rightarrow> n \<noteq> 0 \<and> n > 0)
      \<and> truthy (in_repoName inputs) \<and> truthy (in_githubToken inputs))"

subsection \<open>\<open>writeDiffFile\<close> and \<open>performExtraction\<close>\<close>

definition writeDiffFile_try :: "env \<Rightarrow> GitHubService \<Rightarrow> int \<Rightarrow> event list \<times> (js_error + jstring)" where
  "writeDiffFile_try E service pullNumber =
     (case getPullRequestDiff E service pullNumber of
        (t1, Inl e) \<Rightarrow> (t1, Inl e)
      | (t1, Inr diff) \<Rightarrow>
          (let t2 = t1 @ (if diff_truncated diff
                          then [Log Warning (js ''PR diff was truncated due to size'') None]
                          else []);
               diffFileName = replace (DIFF_FILE_PATTERN E) (js ''{pullNumber}'') (toString pullNumber);
               diffFilePath = path_join E (TEMP_DIR E) diffFileName;
               t3 = t2 @ [Call (EnsureDirectoryExists (TEMP_DIR E))]
           in case ensureDirectoryExists E (TEMP_DIR E) of
                Some e \<Rightarrow> (t3, Inl e)
              | None \<Rightarrow>
                  (let t4 = t3 @ [Call (WriteFile diffFilePath (diff_content diff))]
                   in case writeFile E diffFilePath (diff_content diff) of
                        Some e \<Rightarrow> (t4, Inl e)
                      | None \<Rightarrow> (t4 @ [Log Debug (js ''Diff file written'') None], Inr diffFilePath))))"

definition writeDiffFile :: "env \<Rightarrow> GitHubService \<Rightarrow> int \<Rightarrow> event list \<times> (js_error + jstring)" where
  "writeDiffFile E service pullNumber =
     (case writeDiffFile_try E service pullNumber of
        (t, Inr path) \<Rightarrow> (t, Inr path)
      | (t, Inl error) \<Rightarrow>
          (t @ [Log Err (js ''Failed to write diff file'') (Some error)], Inl error))"

definition flatten_repo :: "pr_repo \<Rightarrow> prd_repo" where
  "flatten_repo r =
     \<lparr>prd_full_name = pr_full_name r, prd_name = pr_name r,
      prd_owner = pr_owner_login (pr_owner r)\<rparr>"

definition assemble :: "PullRequestInfo \<Rightarrow> PullRequestFile list \<Rightarrow> jstring \<Rightarrow> PRData" where
  "assemble prData files diffFilePath =
     \<lparr>prd_number = pr_number prData,
      prd_title = pr_title prData,
      prd_author = pr_login (pr_user prData),
      prd_head = \<lparr>prd_ref = pr_ref (pr_head prData), prd_sha = pr_sha (pr_head prData),
                  prd_repo = flatten_repo (pr_repo (pr_head prData))\<rparr>,
      prd_base = \<lparr>prd_ref = pr_ref (pr_base prData), prd_sha = pr_sha (pr_base prData),
                  prd_repo = flatten_repo (pr_repo (pr_base prData))\<rparr>,
      prd_body = or_else (pr_body prData) [],
      prd_state = pr_state prData,
      prd_changed_files = join [0x0A] (map filename files),
      prd_changed_files_list = files,
      prd_diff_file = diffFilePath\<rparr>"

text \<open>
  \<open>performExtraction\<close>, on the number that \<open>inputs.pullNumber!\<close> is asserted to be (the
  only field of the inputs it reads).  \<open>None\<close>: the file listing never ends.
\<close>

definition performExtraction ::
  "env \<Rightarrow> PRExtractor \<Rightarrow> int \<Rightarrow> (event list \<times> (js_error + PRData)) option" where
  "performExtraction E this pullNumber =
     (case githubService this of
        None \<Rightarrow> Some ([], Inl (new_Error (js ''GitHubService not provided'')))
      | Some service \<Rightarrow>
          (case getPullRequest E service pullNumber of
             (t1, Inl e) \<Rightarrow> Some (t1, Inl e)
           | (t1, Inr prData) \<Rightarrow>
               (case getPullRequestFiles E service pullNumber of
                  None \<Rightarrow> None
                | Some (t2, Inl e) \<Rightarrow> Some (t1 @ t2, Inl e)
                | Some (t2, Inr files) \<Rightarrow>
                    (case writeDiffFile E service pullNumber of
                       (t3, Inl e) \<Rightarrow> Some (t1 @ t2 @ t3, Inl e)
                     | (t3, Inr diffFilePath) \<Rightarrow>
                         Some (t1 @ t2 @ t3 @ [Log Info (js ''PR data extraction completed'') None],
                               Inr (assemble prData files diffFilePath))))))"

section \<open>Observations on runs\<close>

text \<open>The response of the client to the request for page \<open>p\<close> of the file listing.\<close>

abbreviation page_response :: "GitHubService \<Rightarrow> int \<Rightarrow> nat \<Rightarrow> js_error + api_file list" where
  "page_response this pullNumber p \<equiv>
     pulls_listFiles (svc_octokit this) (owner this) (repo this) pullNumber perPage p"

text \<open>The entries of a page (none when the request threw).\<close>

definition page_entries :: "js_error + api_file list \<Rightarrow> api_file list" where
  "page_entries r = (case r of Inl e \<Rightarrow> [] | Inr data \<Rightarrow> data)"

text \<open>The requests among the events of a run, and the pages of the file listing asked for.\<close>

definition requests :: "event list \<Rightarrow> request list" where
  "requests es = concat (map (\<lambda>ev. case ev of Call r \<Rightarrow> [r] | Log l m x \<Rightarrow> []) es)"

definition listed_pages :: "event list \<Rightarrow> nat list" where
  "listed_pages es =
     concat (map (\<lambda>r. case r of PullsListFiles ow rp n pp page \<Rightarrow> [page] | _ \<Rightarrow> []) (requests es))"

text \<open>
  The loop that starts at \<open>page\<close> stops at page \<open>k\<close>: every page before \<open>k\<close> is
  full, and page \<open>k\<close> throws or is short.
\<close>

definition stops_at :: "GitHubService \<Rightarrow> int \<Rightarrow> nat \<Rightarrow> nat \<Rightarrow> bool" where
  "stops_at this n page k \<longleftrightarrow>
     page \<le> k
     \<and> (\<forall>p. page \<le> p \<and> p < k \<longrightarrow> (\<exists>d. page_response this n p = Inr d \<and> perPage \<le> length d))
     \<and> ((\<exists>e. page_response this n k = Inl e)
          \<or> (\<exists>d. page_response this n k = Inr d \<and> length d < perPage))"

text \<open>The number of positions of \<open>s\<close> at which \<open>p\<close> occurs.\<close>

fun occurrences :: "jstring \<Rightarrow> jstring \<Rightarrow> nat" where
  "occurrences p [] = (if p = [] then 1 else 0)"
| "occurrences p (c # cs) = (if startsWith (c # cs) p then 1 else 0) + occurrences p cs"

section \<open>Sample values\<close>

text \<open>Concrete collaborators and responses, for evaluating the program.\<close>

definition sample_repo :: api_repo where
  "sample_repo =
     \<lparr>api_full_name = Some (js ''o/r''), api_name = Some (js ''r''),
      api_owner = Some \<lparr>api_owner_login = Some (js ''o'')\<rparr>\<rparr>"

definition sample_pull :: "api_user option \<Rightarrow> jstring option \<Rightarrow> api_repo option \<Rightarrow> api_pull" where
  "sample_pull user body head_repo =
     \<lparr>api_number = 42, api_title = js ''Fix bug'', api_body = body, api_state = js ''open'',
      api_user = user,
      api_head = \<lparr>api_ref = js ''fix'', api_sha = js ''abc123'', api_repo = head_repo\<rparr>,
      api_base = \<lparr>api_ref = js ''main'', api_sha = js ''def456'', api_repo = Some sample_repo\<rparr>\<rparr>"

definition sample_file :: "jstring \<Rightarrow> api_file" where
  "sample_file name =
     \<lparr>api_filename = name, api_status = js ''modified'', api_additions = 1, api_deletions = 0,
      api_changes = 1, api_patch = None\<rparr>"

text \<open>
  A service for \<open>o/r\<close> whose client answers with the given responses, whatever the
  request's parameters (the file listing by page number).
\<close>

definition sample_service ::
  "(js_error + api_user) option option \<Rightarrow> (js_error + api_pull) \<Rightarrow> (js_error + jstring)
     \<Rightarrow> (nat \<Rightarrow> js_error + api_file list) \<Rightarrow> GitHubService" where
  "sample_service user pull diff pages =
     \<lparr>svc_octokit =
        \<lparr>rest_user = user,
         pulls_get = (\<lambda>_ _ _. pull),
         pulls_get_diff = (\<lambda>_ _ _. diff),
         pulls_listFiles = (\<lambda>_ _ _ _ page. pages page)\<rparr>,
      owner = js ''o'', repo = js ''r''\<rparr>"



definition sample_http_error :: "int \<Rightarrow> jstring \<Rightarrow> js_error" where
  "sample_http_error code msg =
     \<lparr>err_name = js ''HttpError'', err_status = Some code, err_message = msg\<rparr>"

definition sample_env :: env where
  "sample_env =
     \<lparr>MAX_DIFF_SIZE = 1000,
      API_ERROR = js ''GitHub API error'',
      TEMP_DIR = js ''/tmp/ctx'',
      DIFF_FILE_PATTERN = js ''pr-{pullNumber}.diff'',
      path_join = (\<lambda>a b. a @ js ''/'' @ b),
      ensureDirectoryExists = (\<lambda>_. None),
      writeFile = (\<lambda>_ _. None),
      parseRepoName = (\<lambda>_. Inr (js ''o'', js ''r'')),
      new_Octokit = (\<lambda>_. Inl (sample_http_error 0 (js ''no client'')))\<rparr>"

section \<open>Properties\<close>

subsection \<open>Strings and truthiness\<close>

lemma truthy_iff: "truthy v \<longleftrightarrow> (\<exists>s. v = Some s \<and> s \<noteq> [])"
  by (cases v) (simp_all add: truthy_def)

subsection \<open>The applicability check\<close>

text \<open>
  Claim C7 says that \<open>shouldExtract\<close> is true exactly when the pull number is present
  and positive and the repository name and the token are present.  The source tests
  the two strings for truthiness, so a name or token that is present but empty
  counts as missing: with pull number 42, the name \<open>""\<close> and a token, all three are
  present and the result is false.
\<close>

theorem shouldExtract_empty_name_counterexample:
  "\<not> (shouldExtract \<lparr>in_pullNumber = Some 42, in_repoName = Some (js ''''),
                       in_githubToken = Some (js ''ghp_x''), in_githubApiUrl = None\<rparr>
        \<longleftrightarrow>
          (\<exists>n. in_pullNumber \<lparr>in_pullNumber = Some 42, in_repoName = Some (js ''''),
                       in_githubToken = Some (js ''ghp_x''), in_githubApiUrl = None\<rparr> = Some n \<and> 0 < n)
          \<and> in_repoName \<lparr>in_pullNumber = Some 42, in_repoName = Some (js ''''),
                       in_githubToken = Some (js ''ghp_x''), in_githubApiUrl = None\<rparr> \<noteq> None
          \<and> in_githubToken \<lparr>in_pullNumber = Some 42, in_repoName = Some (js ''''),
                       in_githubToken = Some (js ''ghp_x''), in_githubApiUrl = None\<rparr> \<noteq> None)"
  by (simp add: shouldExtract_def truthy_def js_def)

text \<open>
  Claim C7, amended: \<open>shouldExtract\<close> returns true if and only if the pull number is
  present and strictly positive, the repository name is present and not empty, and
  the token is present and not empty; in every other case it returns false.  It is
  a function of the inputs alone: the source logs nothing and requests nothing in it.
\<close>

theorem shouldExtract_iff:
  "shouldExtract inputs \<longleftrightarrow>
     (\<exists>n. in_pullNumber inputs = Some n \<and> 0 < n)
     \<and> (\<exists>r. in_repoName inputs = Some r \<and> r \<noteq> [])
     \<and> (\<exists>k. in_githubToken inputs = Some k \<and> k \<noteq> [])"
  by (cases "in_pullNumber inputs") (auto simp: shouldExtract_def truthy_iff)

theorem shouldExtract_iff_witness:
  "shouldExtract \<lparr>in_pullNumber = Some 42, in_repoName = Some (js ''o/r''),
                    in_githubToken = Some (js ''ghp_x''), in_githubApiUrl = None\<rparr>
   \<and> \<not> shouldExtract \<lparr>in_pullNumber = Some 0, in_repoName = Some (js ''o/r''),
                    in_githubToken = Some (js ''ghp_x''), in_githubApiUrl = None\<rparr>
   \<and> \<not> shouldExtract \<lparr>in_pullNumber = Some 42, in_repoName = None,
                    in_githubToken = Some (js ''ghp_x''), in_githubApiUrl = None\<rparr>"
  by (simp add: shouldExtract_iff js_def)

subsection \<open>The metadata fetch\<close>

lemma or_else_cases:
  "or_else v d = (case v of None \<Rightarrow> d | Some s \<Rightarrow> if s = [] then d else s)"
  by (simp add: or_else_def)


lemma getPullRequest_try_snd:
  "snd (getPullRequest_try this n) =
     (case pulls_get (svc_octokit this) (owner this) (repo this) n of
        Inl e \<Rightarrow> Inl e | Inr data \<Rightarrow> build_info data)"
  by (simp add: getPullRequest_try_def)

lemma getPullRequest_returns:
  "getPullRequest E this n = (t, Inr info) \<longleftrightarrow> getPullRequest_try this n = (t, Inr info)"
  by (cases "getPullRequest_try this n"; cases "snd (getPullRequest_try this n)")
     (auto simp: getPullRequest_def Let_def)

lemma getPullRequest_throws:
  assumes "snd (getPullRequest_try this n) = Inl e"
  shows "getPullRequest E this n =
     (fst (getPullRequest_try this n)
        @ [Log Err (API_ERROR E @ js '': Failed to fetch PR '' @ toString n
                     @ (if err_status e = Some 401 then authentication_guidance
                        else if err_status e = Some 404 then not_found_guidance else []))
             (Some e)],
      Inl e)"
  using assms by (cases "getPullRequest_try this n") (auto simp: getPullRequest_def Let_def)

lemma build_repo_Inr:
  "build_repo r = Inr x \<longleftrightarrow>
     (\<exists>rp ow. r = Some rp \<and> api_owner rp = Some ow
        \<and> x = \<lparr>pr_full_name = api_full_name rp, pr_name = api_name rp,
                pr_owner = \<lparr>pr_owner_login = api_owner_login ow\<rparr>\<rparr>)"
  by (auto simp: build_repo_def split: option.splits)

lemma build_repo_Inl:
  "build_repo r = Inl e \<longleftrightarrow>
     (r = None \<and> e = TypeError_reading (js ''full_name''))
     \<or> (\<exists>rp. r = Some rp \<and> api_owner rp = None \<and> e = TypeError_reading (js ''login''))"
  by (auto simp: build_repo_def split: option.splits)

lemma build_info_Inr:
  "build_info data = Inr info \<Longrightarrow>
     pr_login (pr_user info) =
       or_else (case api_user data of None \<Rightarrow> None | Some u \<Rightarrow> api_login u) (js ''unknown'')
     \<and> pr_body info = api_body data
     \<and> build_repo (api_repo (api_head data)) = Inr (pr_repo (pr_head info))
     \<and> build_repo (api_repo (api_base data)) = Inr (pr_repo (pr_base info))"
  by (auto simp: build_info_def split: sum.splits)

lemma build_info_Inl:
  "build_info data = Inl e \<longleftrightarrow>
     build_repo (api_repo (api_head data)) = Inl e
     \<or> ((\<exists>x. build_repo (api_repo (api_head data)) = Inr x)
         \<and> build_repo (api_repo (api_base data)) = Inl e)"
  by (auto simp: build_info_def split: sum.splits)

lemmas sample_simps =
  sample_service_def sample_pull_def sample_repo_def sample_env_def sample_http_error_def
  sample_file_def

text \<open>
  Claim C8 says that the author of a fetched pull request is the remote login when it
  is present, and \<open>"unknown"\<close> when the user or the login is absent or null.  The
  source writes \<open>data.user?.login || 'unknown'\<close>, so a login that is present but empty
  is replaced as well: the returned author is \<open>"unknown"\<close>, not the login \<open>""\<close>.
\<close>

theorem getPullRequest_empty_login_counterexample:
  "(case snd (getPullRequest sample_env
       (sample_service None
          (Inr (sample_pull (Some \<lparr>api_login = Some (js '''')\<rparr>) None (Some sample_repo)))
          (Inr []) (\<lambda>_. Inr [])) 42) of
      Inl e \<Rightarrow> False
    | Inr info \<Rightarrow> pr_login (pr_user info) = js ''unknown'' \<and> pr_login (pr_user info) \<noteq> js '''')"
  by (simp add: getPullRequest_def getPullRequest_try_def build_info_def build_repo_def
        or_else_def sample_simps js_def)

text \<open>
  Claim C8, amended: for every successful metadata fetch, the author login of the
  returned \<open>PullRequestInfo\<close> equals the remote user's login when that login is a
  non-empty string, and equals \<open>"unknown"\<close> when the remote user or the login is
  absent or null, or the login is the empty string.
\<close>

theorem getPullRequest_author:
  assumes "getPullRequest E this n = (t, Inr info)"
  shows "\<exists>data. pulls_get (svc_octokit this) (owner this) (repo this) n = Inr data
           \<and> pr_login (pr_user info) =
               (case api_user data of
                  None \<Rightarrow> js ''unknown''
                | Some u \<Rightarrow>
                    (case api_login u of
                       None \<Rightarrow> js ''unknown''
                     | Some l \<Rightarrow> if l = [] then js ''unknown'' else l))"
proof -
  from assms have "snd (getPullRequest_try this n) = Inr info"
    by (simp add: getPullRequest_returns)
  then obtain data where d: "pulls_get (svc_octokit this) (owner this) (repo this) n = Inr data"
    and b: "build_info data = Inr info"
    by (auto simp: getPullRequest_try_snd split: sum.splits)
  from build_info_Inr [OF b] have "pr_login (pr_user info) =
       or_else (case api_user data of None \<Rightarrow> None | Some u \<Rightarrow> api_login u) (js ''unknown'')"
    by simp
  then have "pr_login (pr_user info) =
               (case api_user data of
                  None \<Rightarrow> js ''unknown''
                | Some u \<Rightarrow>
                    (case api_login u of
                       None \<Rightarrow> js ''unknown''
                     | Some l \<Rightarrow> if l = [] then js ''unknown'' else l))"
    by (simp add: or_else_def split: option.splits)
  with d show ?thesis by blast
qed

theorem getPullRequest_author_witness:
  "getPullRequest sample_env
     (sample_service None
        (Inr (sample_pull (Some \<lparr>api_login = Some (js ''alice'')\<rparr>) None (Some sample_repo)))
        (Inr []) (\<lambda>_. Inr [])) 42
   = (fst (getPullRequest_try
        (sample_service None
          (Inr (sample_pull (Some \<lparr>api_login = Some (js ''alice'')\<rparr>) None (Some sample_repo)))
          (Inr []) (\<lambda>_. Inr [])) 42),
      Inr \<lparr>pr_number = 42, pr_title = js ''Fix bug'', pr_body = None, pr_state = js ''open'',
           pr_user = \<lparr>pr_login = js ''alice''\<rparr>,
           pr_head = \<lparr>pr_ref = js ''fix'', pr_sha = js ''abc123'',
                      pr_repo = \<lparr>pr_full_name = Some (js ''o/r''), pr_name = Some (js ''r''),
                                 pr_owner = \<lparr>pr_owner_login = Some (js ''o'')\<rparr>\<rparr>\<rparr>,
           pr_base = \<lparr>pr_ref = js ''main'', pr_sha = js ''def456'',
                      pr_repo = \<lparr>pr_full_name = Some (js ''o/r''), pr_name = Some (js ''r''),
                                 pr_owner = \<lparr>pr_owner_login = Some (js ''o'')\<rparr>\<rparr>\<rparr>\<rparr>)
   \<and> (\<exists>data. pulls_get (svc_octokit (sample_service None
          (Inr (sample_pull (Some \<lparr>api_login = Some (js ''alice'')\<rparr>) None (Some sample_repo)))
          (Inr []) (\<lambda>_. Inr []))) (js ''o'') (js ''r'') 42 = Inr data
        \<and> js ''alice'' =
               (case api_user data of
                  None \<Rightarrow> js ''unknown''
                | Some u \<Rightarrow>
                    (case api_login u of
                       None \<Rightarrow> js ''unknown''
                     | Some l \<Rightarrow> if l = [] then js ''unknown'' else l)))"
proof -
  let ?svc = "sample_service None
        (Inr (sample_pull (Some \<lparr>api_login = Some (js ''alice'')\<rparr>) None (Some sample_repo)))
        (Inr []) (\<lambda>_. Inr [])"
  have run: "getPullRequest sample_env ?svc 42 = (fst (getPullRequest_try ?svc 42),
      Inr \<lparr>pr_number = 42, pr_title = js ''Fix bug'', pr_body = None, pr_state = js ''open'',
           pr_user = \<lparr>pr_login = js ''alice''\<rparr>,
           pr_head = \<lparr>pr_ref = js ''fix'', pr_sha = js ''abc123'',
                      pr_repo = \<lparr>pr_full_name = Some (js ''o/r''), pr_name = Some (js ''r''),
                                 pr_owner = \<lparr>pr_owner_login = Some (js ''o'')\<rparr>\<rparr>\<rparr>,
           pr_base = \<lparr>pr_ref = js ''main'', pr_sha = js ''def456'',
                      pr_repo = \<lparr>pr_full_name = Some (js ''o/r''), pr_name = Some (js ''r''),
                                 pr_owner = \<lparr>pr_owner_login = Some (js ''o'')\<rparr>\<rparr>\<rparr>\<rparr>)"
    by (simp add: getPullRequest_def getPullRequest_try_def build_info_def build_repo_def
          or_else_def sample_simps js_def)
  from getPullRequest_author [OF run] show ?thesis
    using run by (simp add: sample_service_def)
qed

text \<open>
  Claim C10 says that a response whose \<open>head.repo\<close> or \<open>base.repo\<close>, or their
  \<open>owner\<close>, \<open>full_name\<close> or \<open>name\<close>, is absent or null makes \<open>getPullRequest\<close>
  raise.  Reading \<open>full_name\<close> or \<open>name\<close> of a repository that is there does not
  throw: with both null, and the repository and its owner present, the call returns
  a \<open>PullRequestInfo\<close> that carries the two nulls.
\<close>

theorem getPullRequest_null_full_name_counterexample:
  "(case snd (getPullRequest sample_env
       (sample_service None
          (Inr (sample_pull None None
                  (Some \<lparr>api_full_name = None, api_name = None,
                         api_owner = Some \<lparr>api_owner_login = Some (js ''o'')\<rparr>\<rparr>)))
          (Inr []) (\<lambda>_. Inr [])) 42) of
      Inl e \<Rightarrow> False
    | Inr info \<Rightarrow> pr_full_name (pr_repo (pr_head info)) = None
                   \<and> pr_name (pr_repo (pr_head info)) = None)"
  by (simp add: getPullRequest_def getPullRequest_try_def build_info_def build_repo_def
        or_else_def sample_simps js_def)

text \<open>
  Claim C10, amended: for every API response, \<open>getPullRequest\<close> raises exactly when
  \<open>head.repo\<close> or \<open>base.repo\<close>, or the \<open>owner\<close> of one of them, is absent or null; the
  error is then a \<open>TypeError\<close> without a status, logged through the generic branch
  (the plain message, no guidance) and raised as it is.  When the two repositories
  and their owners are present the call returns, and \<open>full_name\<close>, \<open>name\<close> and the
  owner's login are copied as they are, absent or null included: none of them is
  given a default, and none of them makes the call raise.
\<close>

theorem getPullRequest_missing_repo:
  assumes "pulls_get (svc_octokit this) (owner this) (repo this) n = Inr data"
  shows
    "((\<exists>hr ho br bo.
         api_repo (api_head data) = Some hr \<and> api_owner hr = Some ho
         \<and> api_repo (api_base data) = Some br \<and> api_owner br = Some bo
         \<and> (\<exists>info. getPullRequest E this n = (fst (getPullRequest_try this n), Inr info)
              \<and> pr_repo (pr_head info) =
                  \<lparr>pr_full_name = api_full_name hr, pr_name = api_name hr,
                   pr_owner = \<lparr>pr_owner_login = api_owner_login ho\<rparr>\<rparr>
              \<and> pr_repo (pr_base info) =
                  \<lparr>pr_full_name = api_full_name br, pr_name = api_name br,
                   pr_owner = \<lparr>pr_owner_login = api_owner_login bo\<rparr>\<rparr>))
      \<or> ((api_repo (api_head data) = None
           \<or> (\<exists>hr. api_repo (api_head data) = Some hr \<and> api_owner hr = None)
           \<or> api_repo (api_base data) = None
           \<or> (\<exists>br. api_repo (api_base data) = Some br \<and> api_owner br = None))
          \<and> (\<exists>e. getPullRequest E this n =
                 (fst (getPullRequest_try this n)
                    @ [Log Err (API_ERROR E @ js '': Failed to fetch PR '' @ toString n) (Some e)],
                  Inl e)
               \<and> err_name e = js ''TypeError'' \<and> err_status e = None)))"
proof (cases "build_info data")
  case (Inl e)
  then have s: "snd (getPullRequest_try this n) = Inl e"
    by (simp add: getPullRequest_try_snd assms)
  from Inl have te: "e = TypeError_reading (js ''full_name'') \<or> e = TypeError_reading (js ''login'')"
    by (auto simp: build_info_Inl build_repo_Inl)
  then have st: "err_status e = None" and nm: "err_name e = js ''TypeError''"
    by (auto simp: TypeError_reading_def)
  from Inl have miss: "api_repo (api_head data) = None
           \<or> (\<exists>hr. api_repo (api_head data) = Some hr \<and> api_owner hr = None)
           \<or> api_repo (api_base data) = None
           \<or> (\<exists>br. api_repo (api_base data) = Some br \<and> api_owner br = None)"
    by (auto simp: build_info_Inl build_repo_Inl)
  have "getPullRequest E this n =
                 (fst (getPullRequest_try this n)
                    @ [Log Err (API_ERROR E @ js '': Failed to fetch PR '' @ toString n) (Some e)],
                  Inl e)"
    using getPullRequest_throws [OF s, of E] st by simp
  with miss st nm show ?thesis by blast
next
  case (Inr info)
  then have s: "getPullRequest_try this n = (fst (getPullRequest_try this n), Inr info)"
    by (simp add: getPullRequest_try_snd assms prod_eq_iff)
  have g: "getPullRequest E this n = (fst (getPullRequest_try this n), Inr info)"
    using s unfolding getPullRequest_returns .
  from build_info_Inr [OF Inr]
  have h: "build_repo (api_repo (api_head data)) = Inr (pr_repo (pr_head info))"
    and b: "build_repo (api_repo (api_base data)) = Inr (pr_repo (pr_base info))"
    by simp_all
  from h obtain hr ho where 1: "api_repo (api_head data) = Some hr" "api_owner hr = Some ho"
     "pr_repo (pr_head info) = \<lparr>pr_full_name = api_full_name hr, pr_name = api_name hr,
                   pr_owner = \<lparr>pr_owner_login = api_owner_login ho\<rparr>\<rparr>"
    unfolding build_repo_Inr by blast
  from b obtain br bo where 2: "api_repo (api_base data) = Some br" "api_owner br = Some bo"
     "pr_repo (pr_base info) = \<lparr>pr_full_name = api_full_name br, pr_name = api_name br,
                   pr_owner = \<lparr>pr_owner_login = api_owner_login bo\<rparr>\<rparr>"
    unfolding build_repo_Inr by blast
  from g 1 2 show ?thesis by blast
qed

theorem getPullRequest_missing_repo_witness:
  "(\<exists>e. getPullRequest sample_env
      (sample_service None (Inr (sample_pull None None None)) (Inr []) (\<lambda>_. Inr [])) 42
       = (fst (getPullRequest_try
                 (sample_service None (Inr (sample_pull None None None)) (Inr []) (\<lambda>_. Inr [])) 42)
            @ [Log Err (js ''GitHub API error: Failed to fetch PR 42'') (Some e)],
          Inl e)
       \<and> err_name e = js ''TypeError'' \<and> err_status e = None)"
proof -
  let ?svc = "sample_service None (Inr (sample_pull None None None)) (Inr []) (\<lambda>_. Inr [])"
  have p: "pulls_get (svc_octokit ?svc) (owner ?svc) (repo ?svc) 42 = Inr (sample_pull None None None)"
    by (simp add: sample_service_def)
  have m: "api_repo (api_head (sample_pull None None None)) = None"
    by (simp add: sample_pull_def)
  have msg: "API_ERROR sample_env @ js '': Failed to fetch PR '' @ toString 42
               = js ''GitHub API error: Failed to fetch PR 42''"
    by (simp add: sample_env_def toString_def digits.simps js_def)
  from getPullRequest_missing_repo [OF p, of sample_env] m msg show ?thesis
    by simp
qed

text \<open>
  Claim C2 says that a 401 from the metadata fetch is raised as an
  \<open>AuthenticationError\<close> whose message holds the remediation guidance, and a 404 as a
  \<open>NotFoundError\<close>, the two told apart by category.  The source raises no error of
  its own: \<open>catch\<close> logs and ends in \<open>throw error\<close>.  The caller receives the
  client's error object in both cases, of the one class the client gave both, with
  the client's message.
\<close>

theorem getPullRequest_category_counterexample:
  "snd (getPullRequest sample_env
       (sample_service None (Inl (sample_http_error 401 (js ''Bad credentials''))) (Inr [])
          (\<lambda>_. Inr [])) 42)
     = Inl \<lparr>err_name = js ''HttpError'', err_status = Some 401, err_message = js ''Bad credentials''\<rparr>
   \<and> snd (getPullRequest sample_env
       (sample_service None (Inl (sample_http_error 404 (js ''Not Found''))) (Inr [])
          (\<lambda>_. Inr [])) 42)
     = Inl \<lparr>err_name = js ''HttpError'', err_status = Some 404, err_message = js ''Not Found''\<rparr>
   \<and> js ''HttpError'' \<noteq> js ''AuthenticationError''
   \<and> js ''HttpError'' \<noteq> js ''NotFoundError''"
  by (simp add: getPullRequest_def getPullRequest_try_def sample_simps js_def)

text \<open>
  Claim C2, amended: when the request of \<open>getPullRequest\<close> fails, the error raised to
  the caller is the client's error, unchanged.  The remediation guidance goes to the
  log: the last event is an error-level line whose message is
  \<open>API_ERROR: Failed to fetch PR n\<close> followed by the authentication guidance when the
  error's status is 401, by the not-found guidance (a different text) when it is 404,
  and by nothing otherwise.  A caller can tell a 401 from a 404 only by the status
  the client's error carries.
\<close>

theorem getPullRequest_rethrows:
  assumes "pulls_get (svc_octokit this) (owner this) (repo this) n = Inl e"
  shows "getPullRequest E this n =
           (fst (getPullRequest_try this n)
              @ [Log Err (API_ERROR E @ js '': Failed to fetch PR '' @ toString n
                           @ (if err_status e = Some 401 then authentication_guidance
                              else if err_status e = Some 404 then not_found_guidance
                              else []))
                   (Some e)],
            Inl e)
         \<and> authentication_guidance \<noteq> not_found_guidance"
proof -
  have "snd (getPullRequest_try this n) = Inl e"
    by (simp add: getPullRequest_try_snd assms)
  from getPullRequest_throws [OF this, of E]
  have 1: "getPullRequest E this n =
           (fst (getPullRequest_try this n)
              @ [Log Err (API_ERROR E @ js '': Failed to fetch PR '' @ toString n
                           @ (if err_status e = Some 401 then authentication_guidance
                              else if err_status e = Some 404 then not_found_guidance
                              else []))
                   (Some e)],
            Inl e)" .
  have "length authentication_guidance \<noteq> length not_found_guidance"
    by (simp add: authentication_guidance_def not_found_guidance_def js_def)
  then have "authentication_guidance \<noteq> not_found_guidance" by auto
  with 1 show ?thesis by simp
qed

theorem getPullRequest_rethrows_witness:
  "snd (getPullRequest sample_env
       (sample_service None (Inl (sample_http_error 401 (js ''Bad credentials''))) (Inr [])
          (\<lambda>_. Inr [])) 42)
     = Inl \<lparr>err_name = js ''HttpError'', err_status = Some 401, err_message = js ''Bad credentials''\<rparr>
   \<and> last (fst (getPullRequest sample_env
       (sample_service None (Inl (sample_http_error 401 (js ''Bad credentials''))) (Inr [])
          (\<lambda>_. Inr [])) 42))
     = Log Err (js ''GitHub API error: Failed to fetch PR 42'' @ authentication_guidance)
         (Some (sample_http_error 401 (js ''Bad credentials'')))"
proof -
  let ?svc = "sample_service None (Inl (sample_http_error 401 (js ''Bad credentials''))) (Inr [])
          (\<lambda>_. Inr [])"
  have p: "pulls_get (svc_octokit ?svc) (owner ?svc) (repo ?svc) 42
             = Inl (sample_http_error 401 (js ''Bad credentials''))"
    by (simp add: sample_service_def)
  have msg: "API_ERROR sample_env @ js '': Failed to fetch PR '' @ toString 42
               = js ''GitHub API error: Failed to fetch PR 42''"
    by (simp add: sample_env_def toString_def digits.simps js_def)
  have st: "err_status (sample_http_error 401 (js ''Bad credentials'')) = Some 401"
    by (simp add: sample_http_error_def)
  from getPullRequest_rethrows [OF p, of sample_env] msg st show ?thesis
    by (simp add: sample_http_error_def)
qed

subsection \<open>The diff fetch\<close>

lemma substring_from_0: "substring s 0 n = take n s"
  by (simp add: substring_def)

lemma byteLength_ge_length: "length s \<le> byteLength s"
  by (induction s rule: byteLength.induct) auto

lemma byteLength_ascii: "\<forall>c \<in> set s. c < 0x80 \<Longrightarrow> byteLength s = length s"
  by (induction s rule: byteLength.induct) auto

text \<open>
  Claim C1 says that \<open>truncated\<close> holds exactly when the byte length of the diff
  exceeds \<open>MAX_DIFF_SIZE\<close>, that the content then has length exactly
  \<open>MAX_DIFF_SIZE\<close>, and that otherwise the content is the full text.  The size is
  counted in UTF-8 bytes and the cut in UTF-16 code units: three units \<open>U+00E9\<close> are
  six bytes, so with a maximum of 4 the diff is marked truncated, and
  \<open>substring(0, 4)\<close> returns all three units; the content has length 3.
\<close>

theorem getPullRequestDiff_multibyte_counterexample:
  "snd (getPullRequestDiff (sample_env\<lparr>MAX_DIFF_SIZE := 4\<rparr>)
     (sample_service None (Inr (sample_pull None None None)) (Inr [0xE9, 0xE9, 0xE9]) (\<lambda>_. Inr []))
     42)
   = Inr \<lparr>diff_content = [0xE9, 0xE9, 0xE9], diff_size = 6, diff_truncated = True\<rparr>
   \<and> length [0xE9, 0xE9, 0xE9 :: 16 word] \<noteq> MAX_DIFF_SIZE (sample_env\<lparr>MAX_DIFF_SIZE := 4\<rparr>)"
  by (simp add: getPullRequestDiff_def sample_service_def substring_def)

text \<open>
  Claim C1, amended: for every diff text returned to \<open>getPullRequestDiff\<close>, \<open>size\<close> is
  the UTF-8 byte length of the full text and \<open>truncated\<close> is true if and only if
  \<open>size\<close> exceeds \<open>MAX_DIFF_SIZE\<close>.  When \<open>truncated\<close> is true the content is the
  first \<open>MAX_DIFF_SIZE\<close> code units of the text, so its length is the smaller of
  \<open>MAX_DIFF_SIZE\<close> and the length of the text; it is exactly \<open>MAX_DIFF_SIZE\<close> when
  the text is ASCII only.  When \<open>truncated\<close> is false the content is the full text.
\<close>

theorem getPullRequestDiff_truncation:
  assumes "pulls_get_diff (svc_octokit this) (owner this) (repo this) n = Inr full"
  shows "\<exists>t d. getPullRequestDiff E this n = (t, Inr d)
           \<and> diff_size d = byteLength full
           \<and> (diff_truncated d \<longleftrightarrow> byteLength full > MAX_DIFF_SIZE E)
           \<and> (diff_truncated d \<longrightarrow>
                 diff_content d = take (MAX_DIFF_SIZE E) full
                 \<and> length (diff_content d) = min (MAX_DIFF_SIZE E) (length full))
           \<and> (diff_truncated d \<and> (\<forall>c \<in> set full. c < 0x80) \<longrightarrow>
                 length (diff_content d) = MAX_DIFF_SIZE E)
           \<and> (\<not> diff_truncated d \<longrightarrow> diff_content d = full)"
proof -
  define d where "d = \<lparr>diff_content =
                            (if byteLength full > MAX_DIFF_SIZE E
                             then substring full 0 (MAX_DIFF_SIZE E) else full),
                          diff_size = byteLength full,
                          diff_truncated = (byteLength full > MAX_DIFF_SIZE E)\<rparr>"
  have run: "snd (getPullRequestDiff E this n) = Inr d"
    by (simp add: getPullRequestDiff_def assms Let_def d_def)
  have ascii: "length (diff_content d) = MAX_DIFF_SIZE E"
    if "diff_truncated d" "\<forall>c \<in> set full. c < 0x80"
  proof -
    from that have "MAX_DIFF_SIZE E < length full"
      by (simp add: d_def byteLength_ascii)
    with that show ?thesis by (simp add: d_def substring_from_0)
  qed
  have "diff_size d = byteLength full"
    and "diff_truncated d \<longleftrightarrow> byteLength full > MAX_DIFF_SIZE E"
    and "diff_truncated d \<longrightarrow>
                 diff_content d = take (MAX_DIFF_SIZE E) full
                 \<and> length (diff_content d) = min (MAX_DIFF_SIZE E) (length full)"
    and "\<not> diff_truncated d \<longrightarrow> diff_content d = full"
    by (simp_all add: d_def substring_from_0 min.commute)
  with run ascii show ?thesis
    by (metis prod.collapse)
qed

theorem getPullRequestDiff_truncation_witness:
  "\<exists>t. getPullRequestDiff (sample_env\<lparr>MAX_DIFF_SIZE := 4\<rparr>)
     (sample_service None (Inr (sample_pull None None None)) (Inr (js ''diff --git'')) (\<lambda>_. Inr []))
     42
   = (t, Inr \<lparr>diff_content = js ''diff'', diff_size = 10, diff_truncated = True\<rparr>)"
proof -
  let ?svc = "sample_service None (Inr (sample_pull None None None)) (Inr (js ''diff --git''))
                (\<lambda>_. Inr [])"
  have p: "pulls_get_diff (svc_octokit ?svc) (owner ?svc) (repo ?svc) 42 = Inr (js ''diff --git'')"
    by (simp add: sample_service_def)
  have b: "byteLength (js ''diff --git'') = 10"
    by (simp add: js_def)
  have m: "MAX_DIFF_SIZE (sample_env\<lparr>MAX_DIFF_SIZE := 4\<rparr>) = 4"
    by simp
  have tk: "take 4 (js ''diff --git'') = js ''diff''"
    by (simp add: js_def)
  from getPullRequestDiff_truncation [OF p, of "sample_env\<lparr>MAX_DIFF_SIZE := 4\<rparr>"]
  obtain t d where "getPullRequestDiff (sample_env\<lparr>MAX_DIFF_SIZE := 4\<rparr>) ?svc 42 = (t, Inr d)"
    "diff_size d = 10" "diff_truncated d" "diff_content d = js ''diff''"
    unfolding b m tk by auto
  then show ?thesis by (cases d) auto
qed

subsection \<open>The file listing\<close>

lemma requests_append: "requests (a @ b) = requests a @ requests b"
  by (simp add: requests_def)

lemma listed_pages_append: "listed_pages (a @ b) = listed_pages a @ listed_pages b"
  by (simp add: listed_pages_def requests_append)

lemma listed_pages_Log: "listed_pages [Log l m x] = []"
  by (simp add: listed_pages_def requests_def)

lemma listed_pages_Call: "listed_pages [Call (PullsListFiles ow rp n pp page)] = [page]"
  by (simp add: listed_pages_def requests_def)

lemma listed_pages_Nil: "listed_pages [] = []"
  by (simp add: listed_pages_def requests_def)

lemma listed_pages_Cons_Log: "listed_pages (Log l m x # es) = listed_pages es"
  by (simp add: listed_pages_def requests_def)

lemma listed_pages_Cons_Call:
  "listed_pages (Call (PullsListFiles ow rp n pp page) # es) = page # listed_pages es"
  by (simp add: listed_pages_def requests_def)

lemmas listed_pages_simps =
  listed_pages_append listed_pages_Nil listed_pages_Cons_Log listed_pages_Cons_Call

lemma loop_finishes:
  assumes "page \<le> k"
    and "\<And>p. page \<le> p \<Longrightarrow> p < k \<Longrightarrow> \<exists>d. page_response this n p = Inr d \<and> perPage \<le> length d"
    and "(\<exists>e. page_response this n k = Inl e)
         \<or> (\<exists>d. page_response this n k = Inr d \<and> length d < perPage)"
  shows "\<exists>t'. listFiles_loop this n page acc t =
            Some (t', case page_response this n k of
                        Inl e \<Rightarrow> Inl e
                      | Inr d \<Rightarrow>
                          Inr (acc @ concat (map (\<lambda>p. map to_file (page_entries (page_response this n p)))
                                              [page..<Suc k]), k))
          \<and> listed_pages t' = listed_pages t @ [page..<Suc k]"
  using assms
proof (induction "k - page" arbitrary: page acc t)
  case 0
  then have pk: "page = k" by simp
  from 0(4) show ?case
  proof
    assume "\<exists>e. page_response this n k = Inl e"
    then obtain e where e: "page_response this n k = Inl e" ..
    show ?thesis
      by (subst listFiles_loop.simps)
         (simp add: pk e Let_def listed_pages_simps)
  next
    assume "\<exists>d. page_response this n k = Inr d \<and> length d < perPage"
    then obtain d where d: "page_response this n k = Inr d" "length d < perPage" by blast
    show ?thesis
      by (subst listFiles_loop.simps)
         (simp add: pk d Let_def page_entries_def listed_pages_simps)
  qed
next
  case (Suc m)
  then have lt: "page < k" by simp
  with Suc(4) [of page] obtain d where d: "page_response this n page = Inr d" "perPage \<le> length d"
    by auto
  have m: "m = k - (page + 1)" using Suc(2) by simp
  have le: "page + 1 \<le> k" using lt by simp
  have full: "\<And>p. page + 1 \<le> p \<Longrightarrow> p < k \<Longrightarrow>
                \<exists>d. page_response this n p = Inr d \<and> perPage \<le> length d"
    using Suc(4) by simp
  let ?t2 = "t @ [Log Debug (js ''Fetching PR files page '' @ digits page) None,
                  Call (PullsListFiles (owner this) (repo this) n perPage page),
                  Log Debug (js ''Fetched '' @ digits (length d) @ js '' files from page ''
                             @ digits page) None]"
  from Suc(1) [OF m le full Suc(5), of "acc @ map to_file d" ?t2]
  obtain t' where t': "listFiles_loop this n (page + 1) (acc @ map to_file d) ?t2 =
            Some (t', case page_response this n k of
                        Inl e \<Rightarrow> Inl e
                      | Inr da \<Rightarrow>
                          Inr ((acc @ map to_file d)
                                 @ concat (map (\<lambda>p. map to_file (page_entries (page_response this n p)))
                                              [page + 1..<Suc k]), k))"
    and lp: "listed_pages t' = listed_pages ?t2 @ [page + 1..<Suc k]"
    by blast
  have step: "listFiles_loop this n page acc t =
                listFiles_loop this n (page + 1) (acc @ map to_file d) ?t2"
    using d by (subst listFiles_loop.simps) (simp add: Let_def)
  have upt: "[page..<Suc k] = page # [page + 1..<Suc k]"
    using lt by (simp add: upt_conv_Cons)
  have lp2: "listed_pages ?t2 = listed_pages t @ [page]"
    by (simp add: listed_pages_simps)
  show ?case
    unfolding step t' upt using lp lp2
    by (simp add: page_entries_def d split: sum.splits)
qed

lemma stops_at_here:
  "(\<exists>e. page_response this n page = Inl e)
     \<or> (\<exists>d. page_response this n page = Inr d \<and> length d < perPage)
   \<Longrightarrow> stops_at this n page page"
  by (auto simp: stops_at_def)

lemma stops_at_later:
  assumes "page_response this n page = Inr d" "perPage \<le> length d" "stops_at this n (page + 1) k"
  shows "stops_at this n page k"
proof -
  have "\<exists>d. page_response this n p = Inr d \<and> perPage \<le> length d" if "page \<le> p" "p < k" for p
  proof (cases "p = page")
    case True
    with assms(1,2) show ?thesis by simp
  next
    case False
    with that assms(3) show ?thesis by (simp add: stops_at_def)
  qed
  with assms(3) show ?thesis by (simp add: stops_at_def)
qed

lemma loop_stops:
  assumes "listFiles_loop this n page acc t = Some y"
  shows "\<exists>k. stops_at this n page k"
proof (rule listFiles_loop.raw_induct
         [where P = "\<lambda>this n page acc t y. \<exists>k. stops_at this n page k", OF _ assms])
  fix loop this n page acc t y
  assume IH: "\<And>this n page acc t y. loop this n page acc t = Some y \<Longrightarrow> \<exists>k. stops_at this n page k"
    and step: "(let t1 = t @ [Log Debug (js ''Fetching PR files page '' @ digits page) None,
                    Call (PullsListFiles (owner this) (repo this) n perPage page)]
      in case page_response this n page of
           Inl e \<Rightarrow> Some (t1, Inl e)
         | Inr data \<Rightarrow>
             (let pageFiles = map to_file data;
                  allFiles' = acc @ pageFiles;
                  t2 = t1 @ [Log Debug (js ''Fetched '' @ digits (length pageFiles)
                                        @ js '' files from page '' @ digits page) None]
              in if length data < perPage then Some (t2, Inr (allFiles', page))
                 else loop this n (page + 1) allFiles' t2)) = Some y"
  show "\<exists>k. stops_at this n page k"
  proof (cases "page_response this n page")
    case (Inl e)
    then show ?thesis by (intro exI [of _ page] stops_at_here) simp
  next
    case (Inr d)
    show ?thesis
    proof (cases "length d < perPage")
      case True
      with Inr show ?thesis by (intro exI [of _ page] stops_at_here) simp
    next
      case False
      with step Inr obtain acc' t' where "loop this n (page + 1) acc' t' = Some y"
        by (simp add: Let_def)
      from IH [OF this] obtain k where "stops_at this n (page + 1) k" ..
      from stops_at_later [OF Inr _ this] False show ?thesis by auto
    qed
  qed
qed

lemma getPullRequestFiles_run:
  assumes "stops_at this n 1 k"
  shows "\<exists>t. getPullRequestFiles E this n =
            Some (t, case page_response this n k of
                       Inl e \<Rightarrow> Inl e
                     | Inr d \<Rightarrow>
                         Inr (concat (map (\<lambda>p. map to_file (page_entries (page_response this n p)))
                                       [1..<Suc k])))
          \<and> listed_pages t = [1..<Suc k]
          \<and> (\<forall>e. page_response this n k = Inl e \<longrightarrow>
                 last t = Log Err (API_ERROR E @ js '': Failed to fetch PR files'') (Some e))"
proof -
  from assms have k: "1 \<le> k"
    and full: "\<And>p. 1 \<le> p \<Longrightarrow> p < k \<Longrightarrow> \<exists>d. page_response this n p = Inr d \<and> perPage \<le> length d"
    and stop: "(\<exists>e. page_response this n k = Inl e)
                \<or> (\<exists>d. page_response this n k = Inr d \<and> length d < perPage)"
    by (simp_all add: stops_at_def)
  from loop_finishes [OF k full stop, of "[]"
         "[Log Debug (js ''Fetching files for PR '' @ toString n) None]"]
  obtain t' where run: "listFiles_loop this n 1 []
                   [Log Debug (js ''Fetching files for PR '' @ toString n) None] =
            Some (t', case page_response this n k of
                        Inl e \<Rightarrow> Inl e
                      | Inr d \<Rightarrow>
                          Inr ([] @ concat (map (\<lambda>p. map to_file (page_entries (page_response this n p)))
                                              [1..<Suc k]), k))"
    and lp: "listed_pages t' =
               listed_pages [Log Debug (js ''Fetching files for PR '' @ toString n) None] @ [1..<Suc k]"
    by blast
  from lp have lp': "listed_pages t' = [1..<Suc k]"
    by (simp add: listed_pages_simps)
  show ?thesis
  proof (cases "page_response this n k")
    case (Inl e)
    with run lp' show ?thesis
      by (simp add: getPullRequestFiles_def listed_pages_simps)
  next
    case (Inr d)
    with run lp' show ?thesis
      by (simp add: getPullRequestFiles_def listed_pages_simps)
  qed
qed

lemma getPullRequestFiles_stops:
  assumes "getPullRequestFiles E this n = Some (t, r)"
  shows "\<exists>k. stops_at this n 1 k"
proof -
  from assms obtain y where
    "listFiles_loop this n 1 [] [Log Debug (js ''Fetching files for PR '' @ toString n) None] = Some y"
    by (auto simp: getPullRequestFiles_def split: option.splits)
  then show ?thesis by (rule loop_stops)
qed

lemma stops_at_next:
  assumes "stops_at this n 1 k" "1 \<le> N" "N \<le> k"
  shows "N < k \<longleftrightarrow> (\<exists>d. page_response this n N = Inr d \<and> perPage \<le> length d)"
proof
  assume "N < k"
  with assms show "\<exists>d. page_response this n N = Inr d \<and> perPage \<le> length d"
    by (simp add: stops_at_def)
next
  assume full: "\<exists>d. page_response this n N = Inr d \<and> perPage \<le> length d"
  show "N < k"
  proof (rule ccontr)
    assume "\<not> N < k"
    with assms(3) have "N = k" by simp
    with assms(1) full show False by (auto simp: stops_at_def)
  qed
qed

text \<open>
  Claim C4: for every pull number, \<open>getPullRequestFiles\<close> returns the concatenation
  of the per-page results in request order (its length the sum of the per-page
  lengths, nothing reordered or dropped); it requests page \<open>N + 1\<close> if and only if
  page \<open>N\<close> returned exactly 100 entries; and the loop terminates as soon as a page
  returns fewer than 100 entries.  Each request asks for \<open>per_page = 100\<close>, which the
  source notes as the maximum of the API, so a page holds at most 100 entries: under
  that bound the next page is requested exactly after a page of 100 entries.  The
  loop's own test is \<open>data.length < perPage\<close>; without the bound, the next page is
  requested exactly after a page of at least 100 entries.
\<close>

theorem getPullRequestFiles_pagination:
  "(\<forall>k. 1 \<le> k
        \<and> (\<forall>p. 1 \<le> p \<and> p < k \<longrightarrow> (\<exists>d. page_response this n p = Inr d \<and> perPage \<le> length d))
        \<and> (\<exists>d. page_response this n k = Inr d \<and> length d < perPage)
      \<longrightarrow> (\<exists>t. getPullRequestFiles E this n =
                  Some (t, Inr (concat (map (\<lambda>p. map to_file (page_entries (page_response this n p)))
                                         [1..<Suc k])))
                \<and> listed_pages t = [1..<Suc k]))
   \<and> (\<forall>t r. getPullRequestFiles E this n = Some (t, r) \<longrightarrow>
         (\<exists>k\<ge>1. listed_pages t = [1..<Suc k])
         \<and> (\<forall>N \<in> set (listed_pages t).
               Suc N \<in> set (listed_pages t)
               \<longleftrightarrow> (\<exists>d. page_response this n N = Inr d \<and> perPage \<le> length d))
         \<and> ((\<forall>p d. page_response this n p = Inr d \<longrightarrow> length d \<le> perPage) \<longrightarrow>
              (\<forall>N \<in> set (listed_pages t).
                 Suc N \<in> set (listed_pages t)
                 \<longleftrightarrow> (\<exists>d. page_response this n N = Inr d \<and> length d = perPage)))
         \<and> (\<forall>files. r = Inr files \<longrightarrow>
               files = concat (map (\<lambda>p. map to_file (page_entries (page_response this n p)))
                                (listed_pages t))
               \<and> length files =
                   sum_list (map (\<lambda>p. length (page_entries (page_response this n p)))
                              (listed_pages t))))"
proof (intro conjI allI impI)
  fix k
  assume "1 \<le> k
        \<and> (\<forall>p. 1 \<le> p \<and> p < k \<longrightarrow> (\<exists>d. page_response this n p = Inr d \<and> perPage \<le> length d))
        \<and> (\<exists>d. page_response this n k = Inr d \<and> length d < perPage)"
  then have s: "stops_at this n 1 k" and "\<exists>d. page_response this n k = Inr d"
    by (auto simp: stops_at_def)
  then obtain d where d: "page_response this n k = Inr d" by blast
  from getPullRequestFiles_run [OF s, of E] d
  show "\<exists>t. getPullRequestFiles E this n =
                  Some (t, Inr (concat (map (\<lambda>p. map to_file (page_entries (page_response this n p)))
                                         [1..<Suc k])))
                \<and> listed_pages t = [1..<Suc k]"
    by auto
next
  fix t r
  assume run: "getPullRequestFiles E this n = Some (t, r)"
  then obtain k where s: "stops_at this n 1 k"
    using getPullRequestFiles_stops by blast
  then have k: "1 \<le> k" by (simp add: stops_at_def)
  from getPullRequestFiles_run [OF s, of E] run
  have lp: "listed_pages t = [1..<Suc k]"
    and r: "r = (case page_response this n k of
                       Inl e \<Rightarrow> Inl e
                     | Inr d \<Rightarrow>
                         Inr (concat (map (\<lambda>p. map to_file (page_entries (page_response this n p)))
                                       [1..<Suc k])))"
    by auto
  show "\<exists>k\<ge>1. listed_pages t = [1..<Suc k]"
    using k lp by blast
  have nxt: "Suc N \<in> set (listed_pages t)
               \<longleftrightarrow> (\<exists>d. page_response this n N = Inr d \<and> perPage \<le> length d)"
    if "N \<in> set (listed_pages t)" for N
  proof -
    from that lp have N: "1 \<le> N" "N \<le> k" by auto
    have "Suc N \<in> set (listed_pages t) \<longleftrightarrow> N < k"
      using lp N by auto
    with stops_at_next [OF s N] show ?thesis by simp
  qed
  then show "\<forall>N \<in> set (listed_pages t).
               Suc N \<in> set (listed_pages t)
               \<longleftrightarrow> (\<exists>d. page_response this n N = Inr d \<and> perPage \<le> length d)"
    by blast
  {
    assume cap: "\<forall>p d. page_response this n p = Inr d \<longrightarrow> length d \<le> perPage"
    have "(\<exists>d. page_response this n N = Inr d \<and> perPage \<le> length d)
            \<longleftrightarrow> (\<exists>d. page_response this n N = Inr d \<and> length d = perPage)" for N
      using cap by (metis le_antisym order_refl)
    with nxt show "\<forall>N \<in> set (listed_pages t).
                 Suc N \<in> set (listed_pages t)
                 \<longleftrightarrow> (\<exists>d. page_response this n N = Inr d \<and> length d = perPage)"
      by simp
  }
  {
    fix files
    assume "r = Inr files"
    with r have f: "files = concat (map (\<lambda>p. map to_file (page_entries (page_response this n p)))
                                (listed_pages t))"
      by (simp add: lp split: sum.splits)
    then show "files = concat (map (\<lambda>p. map to_file (page_entries (page_response this n p)))
                                (listed_pages t))" .
    show "length files =
                   sum_list (map (\<lambda>p. length (page_entries (page_response this n p)))
                              (listed_pages t))"
      unfolding f by (simp add: length_concat comp_def)
  }
qed

theorem getPullRequestFiles_pagination_witness:
  "\<exists>t. getPullRequestFiles sample_env
         (sample_service None (Inr (sample_pull None None None)) (Inr [])
            (\<lambda>p. if p = 1 then Inr (replicate 100 (sample_file (js ''a'')))
                  else Inr [sample_file (js ''b'')])) 42
       = Some (t, Inr (replicate 100 (to_file (sample_file (js ''a'')))
                        @ [to_file (sample_file (js ''b''))]))
     \<and> listed_pages t = [1, 2]
     \<and> (\<exists>d. page_response
               (sample_service None (Inr (sample_pull None None None)) (Inr [])
                  (\<lambda>p. if p = 1 then Inr (replicate 100 (sample_file (js ''a'')))
                        else Inr [sample_file (js ''b'')])) 42 1 = Inr d
             \<and> length d = perPage)
     \<and> \<not> (\<exists>d. page_response
               (sample_service None (Inr (sample_pull None None None)) (Inr [])
                  (\<lambda>p. if p = 1 then Inr (replicate 100 (sample_file (js ''a'')))
                        else Inr [sample_file (js ''b'')])) 42 2 = Inr d
             \<and> length d = perPage)"
proof -
  let ?svc = "sample_service None (Inr (sample_pull None None None)) (Inr [])
            (\<lambda>p. if p = 1 then Inr (replicate 100 (sample_file (js ''a'')))
                  else Inr [sample_file (js ''b'')])"
  have pre: "1 \<le> (2::nat)
        \<and> (\<forall>p. 1 \<le> p \<and> p < 2 \<longrightarrow> (\<exists>d. page_response ?svc 42 p = Inr d \<and> perPage \<le> length d))
        \<and> (\<exists>d. page_response ?svc 42 2 = Inr d \<and> length d < perPage)"
    by (auto simp: sample_service_def perPage_def)
  have cap: "\<forall>p d. page_response ?svc 42 p = Inr d \<longrightarrow> length d \<le> perPage"
    by (auto simp: sample_service_def perPage_def split: if_splits)
  have u: "[1..<Suc 2] = [1, 2]"
    by (simp add: upt_rec)
  note P = getPullRequestFiles_pagination [of ?svc 42 sample_env]
  note P1 = P [THEN conjunct1] and P2 = P [THEN conjunct2]
  from P1 pre
  obtain t where run: "getPullRequestFiles sample_env ?svc 42 =
                  Some (t, Inr (concat (map (\<lambda>p. map to_file (page_entries (page_response ?svc 42 p)))
                                         [1..<Suc 2])))"
    and lp: "listed_pages t = [1..<Suc 2]"
    by blast
  from P2 [rule_format, OF run] cap
  have "\<forall>N \<in> set (listed_pages t).
                 Suc N \<in> set (listed_pages t)
                 \<longleftrightarrow> (\<exists>d. page_response ?svc 42 N = Inr d \<and> length d = perPage)"
    by blast
  then have x: "\<exists>d. page_response ?svc 42 1 = Inr d \<and> length d = perPage"
    and y: "\<not> (\<exists>d. page_response ?svc 42 2 = Inr d \<and> length d = perPage)"
    unfolding lp u by simp_all
  from run have r: "getPullRequestFiles sample_env ?svc 42
       = Some (t, Inr (replicate 100 (to_file (sample_file (js ''a'')))
                        @ [to_file (sample_file (js ''b''))]))"
    unfolding u by (simp add: sample_service_def page_entries_def)
  have lp': "listed_pages t = [1, 2]"
    using lp unfolding u .
  show ?thesis
    by (rule exI [of _ t]) (intro conjI r lp' x y)
qed

subsection \<open>The extractor\<close>

lemma join_Cons: "join sep (x # xs) = x @ concat (map (\<lambda>y. sep @ y) xs)"
  by (induction xs arbitrary: x) simp_all

lemma writeDiffFile_returns:
  "writeDiffFile E service n = (t, Inr path) \<longleftrightarrow> writeDiffFile_try E service n = (t, Inr path)"
  by (cases "writeDiffFile_try E service n"; cases "snd (writeDiffFile_try E service n)")
     (auto simp: writeDiffFile_def)

lemma writeDiffFile_throws:
  assumes "snd (writeDiffFile_try E service n) = Inl e"
  shows "writeDiffFile E service n =
           (fst (writeDiffFile_try E service n)
              @ [Log Err (js ''Failed to write diff file'') (Some e)], Inl e)"
  using assms by (cases "writeDiffFile_try E service n") (auto simp: writeDiffFile_def)



lemma performExtraction_unconfigured:
  "githubService this = None \<Longrightarrow>
     performExtraction E this n = Some ([], Inl (new_Error (js ''GitHubService not provided'')))"
  by (simp add: performExtraction_def)

lemma performExtraction_success:
  assumes "githubService this = Some service"
    and "getPullRequest E service n = (t1, Inr prData)"
    and "getPullRequestFiles E service n = Some (t2, Inr files)"
    and "writeDiffFile E service n = (t3, Inr path)"
  shows "performExtraction E this n =
           Some (t1 @ t2 @ t3 @ [Log Info (js ''PR data extraction completed'') None],
                 Inr (assemble prData files path))"
  using assms by (simp add: performExtraction_def)

lemma performExtraction_Inr:
  assumes "performExtraction E this n = Some (t, Inr d)"
  shows "\<exists>service t1 prData t2 files t3 path.
           githubService this = Some service
           \<and> getPullRequest E service n = (t1, Inr prData)
           \<and> getPullRequestFiles E service n = Some (t2, Inr files)
           \<and> writeDiffFile E service n = (t3, Inr path)
           \<and> d = assemble prData files path"
  using assms
  by (auto simp: performExtraction_def split: option.splits prod.splits sum.splits)


lemma sample_writeDiffFile:
  "snd (writeDiffFile sample_env
          (sample_service u p (Inr (js ''diff --git'')) pages) 42)
     = Inr (js ''/tmp/ctx/pr-42.diff'')"
  by (simp add: writeDiffFile_def writeDiffFile_try_def getPullRequestDiff_def Let_def
        sample_service_def sample_env_def startsWith_def toString_def digits.simps js_def)

text \<open>
  Claim C9: for every successful extraction, the body of the assembled \<open>PRData\<close> is
  the empty string when the body of the fetched metadata is null, and that body
  otherwise; and \<open>changed_files\<close> is the filenames of the fetched file list, in the
  order of the list, joined by a single newline: the first name, then a newline and
  the name for each further file (the empty string for no file).
\<close>

theorem performExtraction_record:
  assumes "performExtraction E this n = Some (t, Inr d)"
  shows "\<exists>service t1 prData t2 files.
           githubService this = Some service
           \<and> getPullRequest E service n = (t1, Inr prData)
           \<and> getPullRequestFiles E service n = Some (t2, Inr files)
           \<and> prd_body d = (case pr_body prData of None \<Rightarrow> js '''' | Some b \<Rightarrow> b)
           \<and> prd_changed_files d =
               (case map filename files of
                  [] \<Rightarrow> js ''''
                | x # xs \<Rightarrow> x @ concat (map (\<lambda>y. [0x0A] @ y) xs))
           \<and> prd_changed_files_list d = files"
proof -
  from performExtraction_Inr [OF assms] obtain service t1 prData t2 files t3 path where
    s: "githubService this = Some service"
    and g: "getPullRequest E service n = (t1, Inr prData)"
    and f: "getPullRequestFiles E service n = Some (t2, Inr files)"
    and d: "d = assemble prData files path"
    by blast
  have b: "prd_body d = (case pr_body prData of None \<Rightarrow> js '''' | Some b \<Rightarrow> b)"
    by (simp add: d assemble_def or_else_def js_def split: option.splits)
  have c: "prd_changed_files d =
               (case map filename files of
                  [] \<Rightarrow> js ''''
                | x # xs \<Rightarrow> x @ concat (map (\<lambda>y. [0x0A] @ y) xs))"
  proof (cases files)
    case Nil
    then show ?thesis by (simp add: d assemble_def js_def)
  next
    case (Cons f fs)
    then show ?thesis by (simp add: d assemble_def join_Cons comp_def del: join.simps)
  qed
  have l: "prd_changed_files_list d = files"
    by (simp add: d assemble_def)
  from s g f b c l show ?thesis by blast
qed

theorem performExtraction_record_witness:
  "\<exists>t d. performExtraction sample_env
       \<lparr>githubService = Some
          (sample_service None
             (Inr (sample_pull (Some \<lparr>api_login = Some (js ''alice'')\<rparr>) None (Some sample_repo)))
             (Inr (js ''diff --git''))
             (\<lambda>_. Inr [sample_file (js ''a.ts''), sample_file (js ''b.ts'')]))\<rparr> 42
       = Some (t, Inr d)
     \<and> prd_body d = js ''''
     \<and> prd_changed_files d = js ''a.ts'' @ [0x0A] @ js ''b.ts''
     \<and> prd_diff_file d = js ''/tmp/ctx/pr-42.diff''"
proof -
  let ?svc = "sample_service None
             (Inr (sample_pull (Some \<lparr>api_login = Some (js ''alice'')\<rparr>) None (Some sample_repo)))
             (Inr (js ''diff --git''))
             (\<lambda>_. Inr [sample_file (js ''a.ts''), sample_file (js ''b.ts'')])"
  let ?ex = "\<lparr>githubService = Some ?svc\<rparr>"
  obtain t1 prData where g: "getPullRequest sample_env ?svc 42 = (t1, Inr prData)"
    and body: "pr_body prData = None"
    by (simp add: getPullRequest_def getPullRequest_try_def build_info_def build_repo_def
          sample_service_def sample_pull_def sample_repo_def)
  have "stops_at ?svc 42 1 1"
    by (auto simp: stops_at_def sample_service_def perPage_def)
  from getPullRequestFiles_run [OF this, of sample_env]
  obtain t2 where f: "getPullRequestFiles sample_env ?svc 42 =
      Some (t2, Inr [to_file (sample_file (js ''a.ts'')), to_file (sample_file (js ''b.ts''))])"
    by (auto simp: sample_service_def page_entries_def)
  obtain t3 where w: "writeDiffFile sample_env ?svc 42 = (t3, Inr (js ''/tmp/ctx/pr-42.diff''))"
    using sample_writeDiffFile [of None _ "\<lambda>_. Inr [sample_file (js ''a.ts''), sample_file (js ''b.ts'')]"]
    by (metis prod.collapse)
  have s: "githubService ?ex = Some ?svc" by simp
  from performExtraction_success [OF s g f w]
  obtain t d where run: "performExtraction sample_env ?ex 42 = Some (t, Inr d)"
    and d: "d = assemble prData
                  [to_file (sample_file (js ''a.ts'')), to_file (sample_file (js ''b.ts''))]
                  (js ''/tmp/ctx/pr-42.diff'')"
    by blast
  from performExtraction_record [OF run] obtain t1' prData' t2' files' where
    g': "getPullRequest sample_env ?svc 42 = (t1', Inr prData')"
    and f': "getPullRequestFiles sample_env ?svc 42 = Some (t2', Inr files')"
    and b: "prd_body d = (case pr_body prData' of None \<Rightarrow> js '''' | Some b \<Rightarrow> b)"
    and c: "prd_changed_files d =
               (case map filename files' of
                  [] \<Rightarrow> js ''''
                | x # xs \<Rightarrow> x @ concat (map (\<lambda>y. [0x0A] @ y) xs))"
    by auto
  from g g' have "prData' = prData" by simp
  with b body have 1: "prd_body d = js ''''" by simp
  from f f' have "files' = [to_file (sample_file (js ''a.ts'')), to_file (sample_file (js ''b.ts''))]"
    by simp
  with c have 2: "prd_changed_files d = js ''a.ts'' @ [0x0A] @ js ''b.ts''"
    by (simp add: to_file_def sample_file_def)
  have 3: "prd_diff_file d = js ''/tmp/ctx/pr-42.diff''"
    by (simp add: d assemble_def)
  from run 1 2 3 show ?thesis by blast
qed

subsection \<open>Construction without an adapter\<close>

lemma new_GitHubService_Inl:
  "(\<exists>e. snd (new_GitHubService E config) = Inl e)
     \<longleftrightarrow> (\<exists>e. new_Octokit E (snd (build_octokitConfig config)) = Inl e)"
  by (cases "build_octokitConfig config"; cases "new_Octokit E (snd (build_octokitConfig config))")
     (auto simp: new_GitHubService_def Let_def)

lemma create_try_Inr:
  "snd (create_try E repoName githubToken url) = Inr x \<Longrightarrow> githubService x \<noteq> None"
  by (auto simp: create_try_def Let_def split: sum.splits prod.splits)

lemma create_try_Inl:
  "(\<exists>e. snd (create_try E repoName githubToken url) = Inl e) \<longleftrightarrow>
     (\<exists>e. parseRepoName E repoName = Inl e)
     \<or> (\<exists>repoInfo e. parseRepoName E repoName = Inr repoInfo
           \<and> new_Octokit E (snd (build_octokitConfig
                 \<lparr>cfg_token = githubToken, cfg_owner = fst repoInfo,
                  cfg_repo = snd repoInfo, cfg_baseUrl = url\<rparr>)) = Inl e)"
proof (cases "parseRepoName E repoName")
  case (Inl e)
  then show ?thesis by (simp add: create_try_def)
next
  case (Inr repoInfo)
  let ?cfg = "\<lparr>cfg_token = githubToken, cfg_owner = fst repoInfo,
                  cfg_repo = snd repoInfo, cfg_baseUrl = url\<rparr>"
  have "(\<exists>e. snd (create_try E repoName githubToken url) = Inl e)
          \<longleftrightarrow> (\<exists>e. snd (new_GitHubService E ?cfg) = Inl e)"
    by (cases "new_GitHubService E ?cfg"; cases "snd (new_GitHubService E ?cfg)")
       (auto simp: create_try_def Inr Let_def)
  then show ?thesis
    by (simp add: Inr new_GitHubService_Inl)
qed

lemma create_with_both:
  assumes "repoName \<noteq> []" "githubToken \<noteq> []"
    and "in_repoName inputs = Some repoName" "in_githubToken inputs = Some githubToken"
  shows "\<exists>t extractor. create E inputs = (t, Inr extractor)
           \<and> (githubService extractor = None
                \<longleftrightarrow> (\<exists>e. snd (create_try E repoName githubToken (in_githubApiUrl inputs)) = Inl e))"
proof (cases "snd (create_try E repoName githubToken (in_githubApiUrl inputs))")
  case (Inl e)
  then show ?thesis
    using assms
    by (cases "create_try E repoName githubToken (in_githubApiUrl inputs)")
       (auto simp: create_def create_without_service_def)
next
  case (Inr x)
  from create_try_Inr [OF Inr] Inr show ?thesis
    using assms
    by (cases "create_try E repoName githubToken (in_githubApiUrl inputs)")
       (auto simp: create_def)
qed

lemma create_without:
  assumes "in_repoName inputs = None \<or> in_repoName inputs = Some []
           \<or> in_githubToken inputs = None \<or> in_githubToken inputs = Some []"
  shows "create E inputs = create_without_service"
  using assms by (auto simp: create_def split: option.splits)

text \<open>
  Claim C6 gives the message of the precondition error as
  \<open>GithubService not provided\<close>.  The source throws
  \<open>new Error('GitHubService not provided')\<close>, with a capital H.
\<close>

theorem performExtraction_message_counterexample:
  "performExtraction sample_env \<lparr>githubService = None\<rparr> 42
     = Some ([], Inl (new_Error (js ''GitHubService not provided'')))
   \<and> new_Error (js ''GitHubService not provided'') \<noteq> new_Error (js ''GithubService not provided'')"
  by (simp add: performExtraction_def new_Error_def js_def)

text \<open>
  Claim C6, amended: for every input bundle, \<open>PRExtractor.create\<close> never throws; it
  returns an extractor with no adapter exactly when \<open>repoName\<close> or \<open>githubToken\<close> is
  absent or empty, or parsing the repository name fails, or the construction of the
  client fails.  For every extractor with no adapter, \<open>performExtraction\<close> fails with
  the error \<open>GitHubService not provided\<close>, with no event before it: nothing is
  logged and nothing is fetched.
\<close>

theorem create_never_throws:
  "(\<exists>t extractor. create E inputs = (t, Inr extractor)
      \<and> (githubService extractor = None \<longleftrightarrow>
            in_repoName inputs = None \<or> in_repoName inputs = Some (js '''')
            \<or> in_githubToken inputs = None \<or> in_githubToken inputs = Some (js '''')
            \<or> (\<exists>repoName githubToken.
                  in_repoName inputs = Some repoName \<and> in_githubToken inputs = Some githubToken
                  \<and> ((\<exists>e. parseRepoName E repoName = Inl e)
                       \<or> (\<exists>repoInfo e. parseRepoName E repoName = Inr repoInfo
                             \<and> new_Octokit E (snd (build_octokitConfig
                                   \<lparr>cfg_token = githubToken, cfg_owner = fst repoInfo,
                                    cfg_repo = snd repoInfo,
                                    cfg_baseUrl = in_githubApiUrl inputs\<rparr>)) = Inl e)))))
   \<and> (\<forall>extractor n. githubService extractor = None \<longrightarrow>
         performExtraction E extractor n
           = Some ([], Inl (new_Error (js ''GitHubService not provided''))))"
proof (intro conjI allI impI)
  fix extractor :: PRExtractor and n
  assume "githubService extractor = None"
  then show "performExtraction E extractor n
           = Some ([], Inl (new_Error (js ''GitHubService not provided'')))"
    by (rule performExtraction_unconfigured)
next
  let ?missing = "in_repoName inputs = None \<or> in_repoName inputs = Some []
           \<or> in_githubToken inputs = None \<or> in_githubToken inputs = Some []"
  show "\<exists>t extractor. create E inputs = (t, Inr extractor)
      \<and> (githubService extractor = None \<longleftrightarrow>
            in_repoName inputs = None \<or> in_repoName inputs = Some (js '''')
            \<or> in_githubToken inputs = None \<or> in_githubToken inputs = Some (js '''')
            \<or> (\<exists>repoName githubToken.
                  in_repoName inputs = Some repoName \<and> in_githubToken inputs = Some githubToken
                  \<and> ((\<exists>e. parseRepoName E repoName = Inl e)
                       \<or> (\<exists>repoInfo e. parseRepoName E repoName = Inr repoInfo
                             \<and> new_Octokit E (snd (build_octokitConfig
                                   \<lparr>cfg_token = githubToken, cfg_owner = fst repoInfo,
                                    cfg_repo = snd repoInfo,
                                    cfg_baseUrl = in_githubApiUrl inputs\<rparr>)) = Inl e))))"
  proof (cases ?missing)
    case True
    from create_without [OF True, of E]
    have "create E inputs = (fst create_without_service, Inr \<lparr>githubService = None\<rparr>)"
      by (simp add: create_without_service_def)
    moreover have "in_repoName inputs = None \<or> in_repoName inputs = Some (js '''')
            \<or> in_githubToken inputs = None \<or> in_githubToken inputs = Some (js '''')"
      using True by (simp add: js_def)
    ultimately show ?thesis by fastforce
  next
    case False
    then obtain repoName githubToken where
      p: "in_repoName inputs = Some repoName" "in_githubToken inputs = Some githubToken"
      "repoName \<noteq> []" "githubToken \<noteq> []"
      by auto
    from create_with_both [OF p(3,4,1,2), of E] obtain t extractor where
      c: "create E inputs = (t, Inr extractor)"
      and s: "githubService extractor = None
                \<longleftrightarrow> (\<exists>e. snd (create_try E repoName githubToken (in_githubApiUrl inputs)) = Inl e)"
      by auto
    have ne: "in_repoName inputs \<noteq> None" "in_repoName inputs \<noteq> Some (js '''')"
      "in_githubToken inputs \<noteq> None" "in_githubToken inputs \<noteq> Some (js '''')"
      using p by (simp_all add: js_def)
    show ?thesis
      using c s p ne unfolding create_try_Inl by auto
  qed
qed

theorem create_never_throws_witness:
  "\<exists>t extractor.
     create sample_env
       \<lparr>in_pullNumber = Some 42, in_repoName = Some (js ''o/r''), in_githubToken = None,
        in_githubApiUrl = None\<rparr> = (t, Inr extractor)
     \<and> githubService extractor = None
     \<and> performExtraction sample_env extractor 42
         = Some ([], Inl (new_Error (js ''GitHubService not provided'')))"
proof -
  let ?inputs = "\<lparr>in_pullNumber = Some 42, in_repoName = Some (js ''o/r''),
                   in_githubToken = None, in_githubApiUrl = None\<rparr>"
  have tok: "in_githubToken ?inputs = None" by simp
  from create_never_throws [of sample_env ?inputs] tok show ?thesis
    by auto
qed

subsection \<open>Propagation of failures\<close>



lemma writeDiffFile_throws_last:
  assumes "snd (writeDiffFile_try E this n) = Inl e"
  shows "snd (writeDiffFile E this n) = Inl e
         \<and> last (fst (writeDiffFile E this n)) = Log Err (js ''Failed to write diff file'') (Some e)"
  by (simp add: writeDiffFile_throws [OF assms])










subsection \<open>The base URL of the client\<close>

lemma endsWith_append: "endsWith (s @ p) p"
  by (simp add: endsWith_def)

lemma endsWith_slash: "endsWith url (js ''/'') \<longleftrightarrow> url \<noteq> [] \<and> last url = 47"
proof (cases url rule: rev_cases)
  case Nil
  then show ?thesis by (simp add: endsWith_def js_def)
next
  case (snoc s c)
  then show ?thesis by (auto simp: endsWith_def js_def)
qed

lemma adjust_baseUrl_endsWith: "endsWith (adjust_baseUrl url) (js ''/api/v3'')"
proof (cases "endsWith url (js ''/api/v3'')")
  case True
  then show ?thesis by (simp add: adjust_baseUrl_def)
next
  case False
  show ?thesis
  proof (cases "endsWith url (js ''/'')")
    case True
    then obtain s where url: "url = s @ [47]"
      unfolding endsWith_slash by (metis append_butlast_last_id)
    have "url @ js ''api/v3'' = s @ js ''/api/v3''"
      by (simp add: url js_def)
    with False True show ?thesis
      by (simp add: adjust_baseUrl_def endsWith_append del: append_assoc)
  next
    case no_slash: False
    with False show ?thesis
      by (simp add: adjust_baseUrl_def endsWith_append)
  qed
qed

text \<open>
  Claim C3 says that, for every alternate base URL supplied to the constructor, a
  string that already ends with \<open>/api/v3\<close> is used unchanged and any other gets the
  suffix appended after a trailing slash is normalised, so that the configured base
  URL ends with \<open>/api/v3\<close> and contains it exactly once.  The constructor, whose
  comments say that it validates and fixes the URL so that it ends with \<open>/api/v3\<close>,
  looks at the trailing slash only when it appends: \<open>https://h/\<close> becomes
  \<open>https://h/api/v3\<close> and \<open>https://h/api/v3\<close> stays as it is, but
  \<open>https://h/api/v3/\<close> is not seen to carry the suffix and becomes
  \<open>https://h/api/v3/api/v3\<close>, which contains the suffix twice.
\<close>

theorem constructor_baseUrl_trailing_slash:
  "baseUrl (snd (build_octokitConfig
      \<lparr>cfg_token = js ''ghp_x'', cfg_owner = js ''o'', cfg_repo = js ''r'',
       cfg_baseUrl = Some (js ''https://h/api/v3/'')\<rparr>))
     = Some (js ''https://h/api/v3/api/v3'')
   \<and> occurrences (js ''/api/v3'') (js ''https://h/api/v3/api/v3'') = 2
   \<and> baseUrl (snd (build_octokitConfig
      \<lparr>cfg_token = js ''ghp_x'', cfg_owner = js ''o'', cfg_repo = js ''r'',
       cfg_baseUrl = Some (js ''https://h/api/v3'')\<rparr>))
     = Some (js ''https://h/api/v3'')
   \<and> baseUrl (snd (build_octokitConfig
      \<lparr>cfg_token = js ''ghp_x'', cfg_owner = js ''o'', cfg_repo = js ''r'',
       cfg_baseUrl = Some (js ''https://h/'')\<rparr>))
     = Some (js ''https://h/api/v3'')
   \<and> occurrences (js ''/api/v3'') (js ''https://h/api/v3'') = 1"
  by (simp add: build_octokitConfig_def adjust_baseUrl_def endsWith_def startsWith_def js_def)

end
